theory Spec2Isabelle
  imports Complex_Main
begin

section \<open>Numbers\<close>

text \<open>
  The extension is written in JavaScript. Its numbers are modelled exactly: pixel counts,
  indices and the results of \<^verbatim>\<open>Math.round\<close> as \<^typ>\<open>int\<close> or \<^typ>\<open>nat\<close>, CSS
  coordinates, scroll offsets and the device pixel ratio as \<^typ>\<open>rat\<close>.
  \<^verbatim>\<open>Math.round(v)\<close> is \<open>\<lfloor>v + 1/2\<rfloor>\<close>, which is \<^term>\<open>round v\<close>;
  \<^verbatim>\<open>Math.ceil\<close> and \<^verbatim>\<open>Math.floor\<close> are \<^term>\<open>ceiling\<close> and \<^term>\<open>floor\<close>.
  Where the source can produce \<^verbatim>\<open>NaN\<close>, \<^verbatim>\<open>Infinity\<close> or \<^verbatim>\<open>undefined\<close> the
  model says so at that place.
\<close>

type_synonym num = rat

text \<open>
  What is thrown: \<^verbatim>\<open>new Error(message)\<close> by the source, and by the platform a
  \<^verbatim>\<open>TypeError\<close> or a \<^verbatim>\<open>DOMException\<close> named \<^verbatim>\<open>IndexSizeError\<close> or
  \<^verbatim>\<open>InvalidStateError\<close>.
\<close>

datatype jsError = Error string | TypeError | IndexSizeError | InvalidStateError

section \<open>Rasters\<close>

text \<open>
  \<^verbatim>\<open>ImageData\<close>: \<^verbatim>\<open>width\<close>, \<^verbatim>\<open>height\<close> and \<^verbatim>\<open>data\<close>, the bytes of the pixels
  row by row, four (R, G, B, A) per pixel. The fields of the records of this theory carry
  a prefix, since the objects of the source share field names (\<^verbatim>\<open>width\<close>,
  \<^verbatim>\<open>height\<close>, \<^verbatim>\<open>scrollTop\<close>). Decoded bitmaps and canvases are rasters of the
  same shape.
\<close>

record ImageData =
  img_width :: nat
  img_height :: nat
  img_data :: "nat list"

text \<open>
  One byte of a raster: channel \<open>ch\<close> of the pixel in row \<open>row\<close> and column \<open>col\<close>.
  Outside the raster a pixel is transparent black.
\<close>

definition rasterByte :: "ImageData \<Rightarrow> int \<Rightarrow> int \<Rightarrow> nat \<Rightarrow> nat" where
  "rasterByte img row col ch =
     (if 0 \<le> row \<and> row < int (img_height img) \<and> 0 \<le> col \<and> col < int (img_width img)
         \<and> (nat row * img_width img + nat col) * 4 + ch < length (img_data img)
      then img_data img ! ((nat row * img_width img + nat col) * 4 + ch)
      else 0)"

text \<open>
  The rectangle at \<open>(sx, sy)\<close> of \<open>w\<close> columns and \<open>h\<close> rows of a raster, as a raster of
  its own. Byte \<open>i\<close> of the result is channel \<open>i mod 4\<close> of the pixel in row
  \<open>i div (4 * w)\<close> and column \<open>(i div 4) mod w\<close> of the rectangle.
\<close>

definition readRegion :: "ImageData \<Rightarrow> int \<Rightarrow> int \<Rightarrow> nat \<Rightarrow> nat \<Rightarrow> ImageData" where
  "readRegion src sx sy w h =
     \<lparr> img_width = w, img_height = h,
       img_data = map (\<lambda>i. rasterByte src (sy + int (i div (4 * w)))
                                          (sx + int ((i div 4) mod w)) (i mod 4))
                      [0..<4 * w * h] \<rparr>"

subsection \<open>The canvas calls of the platform\<close>

text \<open>
  \<^verbatim>\<open>new OffscreenCanvas(width, height)\<close>: the arguments are unsigned integers that
  must be in range, and a negative one throws a \<^verbatim>\<open>TypeError\<close>. The result is the size
  of the new canvas.
\<close>

definition newOffscreenCanvas :: "int \<Rightarrow> int \<Rightarrow> jsError + nat \<times> nat" where
  "newOffscreenCanvas width height =
     (if width < 0 \<or> height < 0 then Inl TypeError else Inr (nat width, nat height))"

text \<open>
  \<^verbatim>\<open>ctx.drawImage(img, sx, sy, sw, sh, 0, 0, sw, sh)\<close> on a fresh canvas of size
  \<open>sw \<times> sh\<close>: the canvas then holds that rectangle of the image, and what lies outside
  the image stays transparent.
\<close>

definition drawCropped :: "ImageData \<Rightarrow> int \<Rightarrow> int \<Rightarrow> nat \<times> nat \<Rightarrow> ImageData" where
  "drawCropped img sx sy dims = readRegion img sx sy (fst dims) (snd dims)"

text \<open>
  \<^verbatim>\<open>ctx.getImageData(sx, sy, sw, sh)\<close>: throws an \<^verbatim>\<open>IndexSizeError\<close> when \<open>sw\<close> or
  \<open>sh\<close> is zero; otherwise it returns the pixels of the rectangle with the corners
  \<open>(sx, sy)\<close> and \<open>(sx + sw, sy + sh)\<close>, of width \<open>\<bar>sw\<bar>\<close> and height \<open>\<bar>sh\<bar>\<close>.
\<close>

definition getImageData :: "ImageData \<Rightarrow> int \<Rightarrow> int \<Rightarrow> int \<Rightarrow> int \<Rightarrow> jsError + ImageData" where
  "getImageData canvas sx sy sw sh =
     (if sw = 0 \<or> sh = 0 then Inl IndexSizeError
      else Inr (readRegion canvas (min sx (sx + sw)) (min sy (sy + sh)) (nat \<bar>sw\<bar>) (nat \<bar>sh\<bar>)))"

text \<open>
  \<^verbatim>\<open>ctx.drawImage(canvas, ...)\<close> with a canvas as the image throws an
  \<^verbatim>\<open>InvalidStateError\<close> when that canvas has width or height zero, and
  \<^verbatim>\<open>canvas.convertToBlob()\<close> rejects with an \<^verbatim>\<open>IndexSizeError\<close> when the canvas
  has width or height zero.
\<close>

definition noPixels :: "nat \<times> nat \<Rightarrow> bool" where
  "noPixels dims = (fst dims = 0 \<or> snd dims = 0)"

section \<open>Overlap detection (background.js, detectOverlap)\<close>

text \<open>
  \<^verbatim>\<open>pixels[idx]\<close> on a typed array: the byte, or \<^verbatim>\<open>undefined\<close> (here \<open>None\<close>) when
  the index is out of range.
\<close>

definition pixelAt :: "nat list \<Rightarrow> int \<Rightarrow> nat option" where
  "pixelAt pixels idx = (if 0 \<le> idx \<and> nat idx < length pixels then Some (pixels ! nat idx) else None)"

text \<open>
  \<^verbatim>\<open>Math.abs(a - b) <= 5\<close>. With an \<^verbatim>\<open>undefined\<close> operand the difference is
  \<^verbatim>\<open>NaN\<close> and the comparison is false.
\<close>

definition channelClose :: "nat option \<Rightarrow> nat option \<Rightarrow> bool" where
  "channelClose a b =
     (case a of None \<Rightarrow> False
      | Some p \<Rightarrow> (case b of None \<Rightarrow> False | Some c \<Rightarrow> \<bar>int p - int c\<bar> \<le> 5))"

text \<open>\<^verbatim>\<open>sampleCount = Math.min(width, 100)\<close>.\<close>

definition sampleCount :: "ImageData \<Rightarrow> nat" where
  "sampleCount prevData = min (img_width prevData) 100"

text \<open>
  \<^verbatim>\<open>sampleStep = Math.floor(width / sampleCount)\<close>. For width 0 the source has
  \<^verbatim>\<open>Math.floor(0 / 0) = NaN\<close>; the value is read only inside the sample loop, which
  then runs zero times, so the model's value there (0) is never used.
\<close>

definition sampleStep :: "ImageData \<Rightarrow> nat" where
  "sampleStep prevData = img_width prevData div sampleCount prevData"

text \<open>The body of the innermost loop up to the test \<^verbatim>\<open>dr <= 5 && dg <= 5 && db <= 5\<close>.\<close>

definition sampleMatches :: "ImageData \<Rightarrow> ImageData \<Rightarrow> int \<Rightarrow> nat \<Rightarrow> nat \<Rightarrow> bool" where
  "sampleMatches prevData currData overlap row sample =
     (let width = int (img_width prevData);
          prevPixels = img_data prevData;
          currPixels = img_data currData;
          prevRow = int (img_height prevData) - overlap + int row;
          currRow = int row;
          x = int (sample * sampleStep prevData);
          prevIdx = (prevRow * width + x) * 4;
          currIdx = (currRow * width + x) * 4
      in channelClose (pixelAt prevPixels prevIdx) (pixelAt currPixels currIdx)
       \<and> channelClose (pixelAt prevPixels (prevIdx + 1)) (pixelAt currPixels (currIdx + 1))
       \<and> channelClose (pixelAt prevPixels (prevIdx + 2)) (pixelAt currPixels (currIdx + 2)))"

text \<open>
  The two inner loops, threading \<open>(matchCount, totalSamples)\<close>: the loop over the samples
  of one row, and the loop over the rows \<open>0 \<le> row < overlap\<close>.
\<close>

definition sampleLoop :: "ImageData \<Rightarrow> ImageData \<Rightarrow> int \<Rightarrow> nat \<Rightarrow> nat \<times> nat \<Rightarrow> nat \<times> nat" where
  "sampleLoop prevData currData overlap row counts =
     fold (\<lambda>sample (matchCount, totalSamples).
             (if sampleMatches prevData currData overlap row sample
              then matchCount + 1 else matchCount, totalSamples + 1))
          [0..<sampleCount prevData] counts"

definition rowLoop :: "ImageData \<Rightarrow> ImageData \<Rightarrow> int \<Rightarrow> nat \<times> nat" where
  "rowLoop prevData currData overlap =
     fold (sampleLoop prevData currData overlap) [0..<nat overlap] (0, 0)"

text \<open>
  \<^verbatim>\<open>matchCount / totalSamples > 0.95\<close>. With \<open>totalSamples = 0\<close> the quotient is
  \<^verbatim>\<open>NaN\<close> for \<open>matchCount = 0\<close> (the comparison is false) and \<^verbatim>\<open>Infinity\<close>
  otherwise (true). The double 0.95 is compared as the rational 95/100: a quotient of two
  counts that differs from 19/20 differs by far more than the rounding of a double.
\<close>

definition exceedsThreshold :: "nat \<Rightarrow> nat \<Rightarrow> bool" where
  "exceedsThreshold matchCount totalSamples =
     (if totalSamples = 0 then 0 < matchCount
      else (95 :: rat) / 100 < of_nat matchCount / of_nat totalSamples)"

text \<open>
  The outer loop \<^verbatim>\<open>for (let overlap = maxOverlap; overlap >= 1; overlap--)\<close> with its
  early return, and \<^verbatim>\<open>return 0\<close> after it.
\<close>

function searchOverlap :: "ImageData \<Rightarrow> ImageData \<Rightarrow> int \<Rightarrow> int" where
  "searchOverlap prevData currData overlap =
     (if overlap \<ge> 1 then
        (let counts = rowLoop prevData currData overlap in
         if exceedsThreshold (fst counts) (snd counts) then overlap
         else searchOverlap prevData currData (overlap - 1))
      else 0)"
  by pat_completeness auto
termination
  by (relation "measure (\<lambda>(prevData, currData, overlap). nat overlap)") auto

declare searchOverlap.simps [simp del]

definition detectOverlap :: "ImageData \<Rightarrow> ImageData \<Rightarrow> int \<Rightarrow> int" where
  "detectOverlap prevData currData maxOverlap = searchOverlap prevData currData maxOverlap"

section \<open>Stitching (background.js, stitchFrames)\<close>

text \<open>
  The model follows the control flow of the source. The one \<^verbatim>\<open>throw\<close> of
  \<^verbatim>\<open>stitchFrames\<close> itself is the one for an empty frame list; the canvas calls throw
  as described above. The data URLs are those a capture produced: decoding them is taken
  to succeed.
\<close>

text \<open>The crop region computed by the content script, with its \<^verbatim>\<open>raw\<close> part.\<close>

record rawRegion =
  raw_left :: num
  raw_top :: num
  raw_width :: num
  raw_height :: num

record cropRegion =
  crop_x :: num
  crop_y :: num
  crop_width :: num
  crop_height :: num
  crop_raw :: rawRegion

text \<open>A frame as the content script pushes it: \<^verbatim>\<open>{ dataUrl, cropRegion, scrollTop, frameIndex }\<close>.\<close>

record frame =
  fr_dataUrl :: string
  fr_cropRegion :: cropRegion
  fr_scrollTop :: num
  fr_frameIndex :: nat

text \<open>
  \<^verbatim>\<open>options\<close>: a field the caller left out is \<^verbatim>\<open>undefined\<close> (\<open>None\<close>) and takes the
  default of the destructuring, \<^verbatim>\<open>detectDuplicates = true\<close> and
  \<^verbatim>\<open>maxOverlapHeight = 200\<close>.
\<close>

record stitchOptions =
  opt_detectDuplicates :: "bool option"
  opt_maxOverlapHeight :: "int option"

definition detectDuplicatesOf :: "stitchOptions \<Rightarrow> bool" where
  "detectDuplicatesOf options = (case opt_detectDuplicates options of None \<Rightarrow> True | Some b \<Rightarrow> b)"

definition maxOverlapHeightOf :: "stitchOptions \<Rightarrow> int" where
  "maxOverlapHeightOf options = (case opt_maxOverlapHeight options of None \<Rightarrow> 200 | Some m \<Rightarrow> m)"

text \<open>
  An entry of \<^verbatim>\<open>croppedFrames\<close>: the temporary canvas (with its context) and the
  numbers \<^verbatim>\<open>Math.round(crop.width)\<close> and \<^verbatim>\<open>Math.round(crop.height)\<close>.
\<close>

record croppedFrame =
  cf_canvas :: ImageData
  cf_width :: int
  cf_height :: int

text \<open>
  The body of the cropping loop. \<open>decode\<close> stands for \<^verbatim>\<open>dataUrlToImageBitmap\<close>, the
  platform's decoding of a data URL.
\<close>

definition cropFrame :: "(string \<Rightarrow> ImageData) \<Rightarrow> frame \<Rightarrow> jsError + croppedFrame" where
  "cropFrame decode f =
     (let img = decode (fr_dataUrl f);
          crop = fr_cropRegion f
      in case newOffscreenCanvas (round (crop_width crop)) (round (crop_height crop)) of
           Inl err \<Rightarrow> Inl err
         | Inr tempCanvas \<Rightarrow>
             Inr \<lparr> cf_canvas = drawCropped img (round (crop_x crop)) (round (crop_y crop)) tempCanvas,
                   cf_width = round (crop_width crop),
                   cf_height = round (crop_height crop) \<rparr>)"

text \<open>The cropping loop: it pushes one entry per frame and ends at the first throw.\<close>

fun cropLoop ::
  "(string \<Rightarrow> ImageData) \<Rightarrow> frame list \<Rightarrow> croppedFrame list \<Rightarrow> jsError + croppedFrame list" where
  "cropLoop decode [] croppedFrames = Inr croppedFrames"
| "cropLoop decode (f # rest) croppedFrames =
     (case cropFrame decode f of
        Inl err \<Rightarrow> Inl err
      | Inr cropped \<Rightarrow> cropLoop decode rest (croppedFrames @ [cropped]))"

text \<open>The body of the loop that detects duplicates, for one pair of neighbours.\<close>

definition pairOverlap :: "int \<Rightarrow> croppedFrame \<Rightarrow> croppedFrame \<Rightarrow> jsError + int" where
  "pairOverlap maxOverlapHeight prevFrame currFrame =
     (let checkHeight = min maxOverlapHeight (min (cf_height prevFrame) (cf_height currFrame))
      in case getImageData (cf_canvas prevFrame) 0 (cf_height prevFrame - checkHeight)
                           (cf_width prevFrame) checkHeight of
           Inl err \<Rightarrow> Inl err
         | Inr prevData \<Rightarrow>
             (case getImageData (cf_canvas currFrame) 0 0 (cf_width currFrame) checkHeight of
                Inl err \<Rightarrow> Inl err
              | Inr currData \<Rightarrow> Inr (detectOverlap prevData currData checkHeight)))"

text \<open>
  The loop \<^verbatim>\<open>for (let i = 1; i < croppedFrames.length; i++)\<close> that pushes the detected
  overlaps onto \<^verbatim>\<open>overlaps\<close>, which starts as \<open>[0]\<close>; it ends at the first throw.
\<close>

definition overlapLoop :: "int \<Rightarrow> croppedFrame list \<Rightarrow> nat \<Rightarrow> jsError + int list" where
  "overlapLoop maxOverlapHeight croppedFrames n =
     fold (\<lambda>i result.
             case result of
               Inl err \<Rightarrow> Inl err
             | Inr overlaps \<Rightarrow>
                 (case pairOverlap maxOverlapHeight (croppedFrames ! (i - 1)) (croppedFrames ! i) of
                    Inl err \<Rightarrow> Inl err
                  | Inr overlap \<Rightarrow> Inr (overlaps @ [overlap])))
          [1..<n] (Inr [0])"

text \<open>\<^verbatim>\<open>overlaps\<close>: \<open>[0]\<close>, then one entry pushed for every \<open>1 \<le> i < length\<close>.\<close>

definition computeOverlaps :: "bool \<Rightarrow> int \<Rightarrow> croppedFrame list \<Rightarrow> jsError + int list" where
  "computeOverlaps detectDuplicates maxOverlapHeight croppedFrames =
     (if detectDuplicates \<and> length croppedFrames > 1
      then overlapLoop maxOverlapHeight croppedFrames (length croppedFrames)
      else Inr (0 # map (\<lambda>i. 0) [1..<length croppedFrames]))"

text \<open>The loop that adds up \<^verbatim>\<open>totalHeight\<close>.\<close>

definition totalHeightOf :: "croppedFrame list \<Rightarrow> int list \<Rightarrow> int" where
  "totalHeightOf croppedFrames overlaps =
     fold (\<lambda>i totalHeight.
             totalHeight + (cf_height (croppedFrames ! i) - (if i > 0 then overlaps ! i else 0)))
          [0..<length croppedFrames] 0"

text \<open>
  The final loop, threading \<^verbatim>\<open>currentY\<close>; it ends at the first throw. Of each
  \<^verbatim>\<open>drawImage\<close> the model keeps the rows it copies:
  \<open>(sourceY, sourceHeight, currentY)\<close>.
\<close>

definition drawLoop ::
  "croppedFrame list \<Rightarrow> int list \<Rightarrow> jsError + int \<times> (int \<times> int \<times> int) list" where
  "drawLoop croppedFrames overlaps =
     fold (\<lambda>i result.
             case result of
               Inl err \<Rightarrow> Inl err
             | Inr (currentY, draws) \<Rightarrow>
                 (let frame = croppedFrames ! i;
                      overlap = overlaps ! i;
                      sourceY = (if i = 0 then 0 else overlap);
                      sourceHeight = cf_height frame - sourceY
                  in if noPixels (img_width (cf_canvas frame), img_height (cf_canvas frame))
                     then Inl InvalidStateError
                     else Inr (currentY + sourceHeight, draws @ [(sourceY, sourceHeight, currentY)])))
          [0..<length croppedFrames] (Inr (0, []))"

text \<open>
  The final canvas: \<^verbatim>\<open>new OffscreenCanvas(outputWidth, totalHeight)\<close> and what was
  drawn on it. Its encoding as a PNG blob is the platform's.
\<close>

record compositeImage =
  out_width :: int
  out_height :: int
  out_draws :: "(int \<times> int \<times> int) list"

text \<open>The cropped frames and the overlaps that \<^verbatim>\<open>stitchFrames\<close> computes on its way.\<close>

definition croppedFramesOf ::
  "(string \<Rightarrow> ImageData) \<Rightarrow> frame list \<Rightarrow> jsError + croppedFrame list" where
  "croppedFramesOf decode frames = cropLoop decode frames []"

definition overlapsOf ::
  "(string \<Rightarrow> ImageData) \<Rightarrow> frame list \<Rightarrow> stitchOptions \<Rightarrow> jsError + int list" where
  "overlapsOf decode frames options =
     (case croppedFramesOf decode frames of
        Inl err \<Rightarrow> Inl err
      | Inr croppedFrames \<Rightarrow>
          computeOverlaps (detectDuplicatesOf options) (maxOverlapHeightOf options) croppedFrames)"

definition stitchFrames ::
  "(string \<Rightarrow> ImageData) \<Rightarrow> frame list \<Rightarrow> stitchOptions \<Rightarrow> jsError + compositeImage" where
  "stitchFrames decode frames options =
     (if length frames = 0 then Inl (Error ''No frames to stitch'')
      else
        (let firstCrop = fr_cropRegion (frames ! 0);
             outputWidth = round (crop_width firstCrop)
         in case croppedFramesOf decode frames of
              Inl err \<Rightarrow> Inl err
            | Inr croppedFrames \<Rightarrow>
                (case computeOverlaps (detectDuplicatesOf options) (maxOverlapHeightOf options)
                        croppedFrames of
                   Inl err \<Rightarrow> Inl err
                 | Inr overlaps \<Rightarrow>
                     (let totalHeight = totalHeightOf croppedFrames overlaps
                      in case newOffscreenCanvas outputWidth totalHeight of
                           Inl err \<Rightarrow> Inl err
                         | Inr finalCanvas \<Rightarrow>
                             (case drawLoop croppedFrames overlaps of
                                Inl err \<Rightarrow> Inl err
                              | Inr drawn \<Rightarrow>
                                  if noPixels finalCanvas then Inl IndexSizeError
                                  else Inr \<lparr> out_width = outputWidth, out_height = totalHeight,
                                             out_draws = snd drawn \<rparr>)))))"

section \<open>Crop geometry (content script, Scroller.calculateCropRegion)\<close>

text \<open>\<^verbatim>\<open>element.getBoundingClientRect()\<close>, in viewport coordinates.\<close>

record rect =
  rect_left :: num
  rect_top :: num
  rect_right :: num
  rect_bottom :: num

text \<open>
  \<^verbatim>\<open>calculateCropRegion\<close> reads the bounding rectangle of the element,
  \<^verbatim>\<open>window.innerWidth\<close>, \<^verbatim>\<open>window.innerHeight\<close> and
  \<^verbatim>\<open>window.devicePixelRatio || 1\<close> (a ratio of 0 is falsy and gives 1).
\<close>

definition calculateCropRegion :: "rect \<Rightarrow> num \<Rightarrow> num \<Rightarrow> num \<Rightarrow> cropRegion" where
  "calculateCropRegion r viewportWidth viewportHeight devicePixelRatio =
     (let dpr = (if devicePixelRatio = 0 then 1 else devicePixelRatio);
          visibleLeft = max 0 (rect_left r);
          visibleTop = max 0 (rect_top r);
          visibleRight = min viewportWidth (rect_right r);
          visibleBottom = min viewportHeight (rect_bottom r);
          visibleWidth = visibleRight - visibleLeft;
          visibleHeight = visibleBottom - visibleTop
      in \<lparr> crop_x = visibleLeft * dpr,
           crop_y = visibleTop * dpr,
           crop_width = visibleWidth * dpr,
           crop_height = visibleHeight * dpr,
           crop_raw = \<lparr> raw_left = visibleLeft, raw_top = visibleTop,
                        raw_width = visibleWidth, raw_height = visibleHeight \<rparr> \<rparr>)"

section \<open>Capture scheduling (content script, Scroller)\<close>

text \<open>
  A frame count. \<^verbatim>\<open>Math.ceil(a / b) + 1\<close> is \<^verbatim>\<open>Infinity\<close> when \<open>b = 0\<close> and
  \<open>a > 0\<close>, and then \<^verbatim>\<open>i < totalFrames\<close> holds for every \<open>i\<close>.
\<close>

datatype jsCount = Count int | Infinite

fun countLess :: "nat \<Rightarrow> jsCount \<Rightarrow> bool" where
  "countLess i (Count n) = (int i < n)"
| "countLess i Infinite = True"

text \<open>\<^verbatim>\<open>Math.ceil(a / b) + 1\<close>, which the source computes only for \<open>a > 0\<close>.\<close>

definition ceilPlusOne :: "num \<Rightarrow> num \<Rightarrow> jsCount" where
  "ceilPlusOne a b = (if b = 0 then Infinite else Count (\<lceil>a / b\<rceil> + 1))"

text \<open>
  What the scheduler reads of a DOM element: its identity, its scroll metrics, its
  \<^verbatim>\<open>offsetTop\<close>, the chain of its \<^verbatim>\<open>offsetParent\<close>s (identity and
  \<^verbatim>\<open>offsetTop\<close> of each, up to \<^verbatim>\<open>null\<close>), and its bounding rectangle, which
  depends on the scroll offset of the container being scrolled.
\<close>

record element =
  el_id :: nat
  el_clientHeight :: num
  el_scrollHeight :: num
  el_offsetHeight :: num
  el_offsetTop :: num
  el_offsetParents :: "(nat \<times> num) list"
  el_boundingRect :: "num \<Rightarrow> rect"

text \<open>
  The page around the capture: the viewport, and the reply of the background worker to
  the \<open>k\<close>-th \<^verbatim>\<open>CAPTURE_FRAME\<close> message sent.
\<close>

record response =
  resp_success :: bool
  resp_error :: "string option"
  resp_dataUrl :: string

record page =
  pg_innerWidth :: num
  pg_innerHeight :: num
  pg_devicePixelRatio :: num
  pg_captureFrame :: "nat \<Rightarrow> response"

text \<open>
  What a capture changes: the scroll offset of the scrolled element, whether its
  scrollbars are hidden, whether the progress indicator is in the document, how many
  \<^verbatim>\<open>CAPTURE_FRAME\<close> messages were sent, and the calls of \<^verbatim>\<open>onProgress\<close>.
\<close>

record scrollerState =
  st_scrollTop :: num
  st_scrollbarsHidden :: bool
  st_progressShown :: bool
  st_requests :: nat
  st_progress :: "(nat \<times> jsCount) list"

text \<open>
  \<^verbatim>\<open>scrollTo\<close> assigns \<^verbatim>\<open>element.scrollTop\<close> and waits for the rendering to
  settle; the waits (here and between the steps below) take time and change nothing
  else. The offset asked for is taken as the offset reached.
\<close>

definition scrollTo :: "scrollerState \<Rightarrow> num \<Rightarrow> scrollerState" where
  "scrollTo st scrollTop = st\<lparr>st_scrollTop := scrollTop\<rparr>"

definition showProgress :: "scrollerState \<Rightarrow> scrollerState" where
  "showProgress st = st\<lparr>st_progressShown := True\<rparr>"

definition hideProgress :: "scrollerState \<Rightarrow> scrollerState" where
  "hideProgress st = st\<lparr>st_progressShown := False\<rparr>"

definition hideScrollbars :: "scrollerState \<Rightarrow> scrollerState" where
  "hideScrollbars st = st\<lparr>st_scrollbarsHidden := True\<rparr>"

text \<open>\<^verbatim>\<open>scrollbarState.restore()\<close>.\<close>

definition restoreScrollbars :: "scrollerState \<Rightarrow> scrollerState" where
  "restoreScrollbars st = st\<lparr>st_scrollbarsHidden := False\<rparr>"

text \<open>\<^verbatim>\<open>if (onProgress) onProgress(i + 1, totalFrames)\<close>.\<close>

definition reportProgress :: "bool \<Rightarrow> nat \<Rightarrow> jsCount \<Rightarrow> scrollerState \<Rightarrow> scrollerState" where
  "reportProgress onProgress current totalFrames st =
     (if onProgress then st\<lparr>st_progress := st_progress st @ [(current, totalFrames)]\<rparr> else st)"

text \<open>The \<^verbatim>\<open>finally\<close> block of the capture functions.\<close>

definition finallyBlock :: "scrollerState \<Rightarrow> scrollerState" where
  "finallyBlock st = hideProgress (restoreScrollbars st)"

text \<open>\<^verbatim>\<open>await chrome.runtime.sendMessage({ type: 'CAPTURE_FRAME' })\<close>.\<close>

definition sendCaptureFrame :: "page \<Rightarrow> scrollerState \<Rightarrow> response \<times> scrollerState" where
  "sendCaptureFrame pg st = (pg_captureFrame pg (st_requests st), st\<lparr>st_requests := st_requests st + 1\<rparr>)"

text \<open>\<^verbatim>\<open>calculateCropRegion(element)\<close> at the current scroll offset.\<close>

definition cropRegionOf :: "page \<Rightarrow> element \<Rightarrow> scrollerState \<Rightarrow> cropRegion" where
  "cropRegionOf pg el st =
     calculateCropRegion (el_boundingRect el (st_scrollTop st))
        (pg_innerWidth pg) (pg_innerHeight pg) (pg_devicePixelRatio pg)"

text \<open>\<^verbatim>\<open>response.error || fallback\<close>: an absent or empty message is falsy.\<close>

definition errorOr :: "string option \<Rightarrow> string \<Rightarrow> string" where
  "errorOr err fallback = (case err of None \<Rightarrow> fallback | Some m \<Rightarrow> if m = [] then fallback else m)"

subsection \<open>calculateFrames and captureFrames\<close>

record frameInfo =
  fi_totalFrames :: jsCount
  fi_frameHeight :: num
  fi_scrollableHeight :: num
  fi_initialScrollTop :: num
  fi_clientHeight :: "num option"

definition calculateFrames :: "element \<Rightarrow> scrollerState \<Rightarrow> frameInfo" where
  "calculateFrames el st =
     (let clientHeight = el_clientHeight el;
          scrollHeight = el_scrollHeight el;
          scrollTop = st_scrollTop st;
          scrollableHeight = scrollHeight - clientHeight
      in if scrollableHeight \<le> 0
         then \<lparr> fi_totalFrames = Count 1, fi_frameHeight = clientHeight,
                 fi_scrollableHeight = 0, fi_initialScrollTop = scrollTop,
                 fi_clientHeight = None \<rparr>
         else
           (let overlapRatio = 2 / 10;
                effectiveHeight = clientHeight * (1 - overlapRatio);
                totalFrames = ceilPlusOne scrollableHeight effectiveHeight
            in \<lparr> fi_totalFrames = totalFrames, fi_frameHeight = effectiveHeight,
                 fi_scrollableHeight = scrollableHeight, fi_initialScrollTop = scrollTop,
                 fi_clientHeight = Some clientHeight \<rparr>))"

text \<open>
  The scroll offset of frame \<open>i\<close>:
  \<^verbatim>\<open>i === 0 ? 0 : Math.min(i * frameHeight, scrollableHeight)\<close>.
\<close>

definition frameOffset :: "nat \<Rightarrow> num \<Rightarrow> num \<Rightarrow> num" where
  "frameOffset i frameHeight scrollableHeight =
     (if i = 0 then 0 else min (of_nat i * frameHeight) scrollableHeight)"

text \<open>
  The frame loop of \<^verbatim>\<open>captureFrames\<close>, from frame \<open>i\<close> on. A thrown error ends it
  with \<open>Inl\<close>; \<open>None\<close> is a loop that never ends.
\<close>

partial_function (option) captureFramesLoop ::
  "page \<Rightarrow> element \<Rightarrow> bool \<Rightarrow> frameInfo \<Rightarrow> nat \<Rightarrow> frame list \<Rightarrow> scrollerState
     \<Rightarrow> ((jsError + frame list) \<times> scrollerState) option" where
  "captureFramesLoop pg el onProgress frameInfo i frames st =
     (if countLess i (fi_totalFrames frameInfo) then
        (let scrollTop = frameOffset i (fi_frameHeight frameInfo) (fi_scrollableHeight frameInfo);
             st1 = scrollTo st scrollTop;
             st2 = showProgress st1;
             st3 = reportProgress onProgress (i + 1) (fi_totalFrames frameInfo) st2;
             st4 = hideProgress st3;
             sent = sendCaptureFrame pg st4;
             response = fst sent;
             st5 = snd sent
         in if \<not> resp_success response
            then Some (Inl (Error (errorOr (resp_error response) ''Failed to capture frame'')), st5)
            else captureFramesLoop pg el onProgress frameInfo (i + 1)
                   (frames @ [\<lparr> fr_dataUrl = resp_dataUrl response,
                                 fr_cropRegion = cropRegionOf pg el st5,
                                 fr_scrollTop = scrollTop,
                                 fr_frameIndex = i \<rparr>])
                   st5)
      else Some (Inr frames, st))"

declare captureFramesLoop.simps [code]

definition captureFrames ::
  "page \<Rightarrow> element \<Rightarrow> bool \<Rightarrow> scrollerState \<Rightarrow> ((jsError + frame list) \<times> scrollerState) option" where
  "captureFrames pg el onProgress st =
     (let frameInfo = calculateFrames el st;
          st1 = hideScrollbars st;
          st2 = scrollTo st1 0
      in case captureFramesLoop pg el onProgress frameInfo 0 [] st2 of
           None \<Rightarrow> None
         | Some (Inl err, st3) \<Rightarrow> Some (Inl err, finallyBlock st3)
         | Some (Inr frames, st3) \<Rightarrow>
             Some (Inr frames, finallyBlock (scrollTo st3 (fi_initialScrollTop frameInfo))))"

subsection \<open>captureWithScrollAndCrop\<close>

text \<open>
  \<^verbatim>\<open>getElementOffsetInContainer\<close>: the loop over \<^verbatim>\<open>current\<close>, which starts at the
  element and follows \<^verbatim>\<open>offsetParent\<close> until it is \<^verbatim>\<open>null\<close> or the container.
\<close>

fun offsetLoop :: "num \<Rightarrow> (nat \<times> num) list \<Rightarrow> nat \<Rightarrow> num" where
  "offsetLoop offset [] container = offset"
| "offsetLoop offset (current # parents) container =
     (if fst current \<noteq> container then offsetLoop (offset + snd current) parents container
      else offset)"

definition getElementOffsetInContainer :: "element \<Rightarrow> element \<Rightarrow> num" where
  "getElementOffsetInContainer el container =
     offsetLoop 0 ((el_id el, el_offsetTop el) # el_offsetParents el) (el_id container)"

text \<open>\<^verbatim>\<open>haystack.includes(needle)\<close>.\<close>

fun includesStr :: "string \<Rightarrow> string \<Rightarrow> bool" where
  "includesStr [] needle = (needle = [])"
| "includesStr (c # cs) needle = (take (length needle) (c # cs) = needle \<or> includesStr cs needle)"

text \<open>\<^verbatim>\<open>response.error && response.error.includes('quota')\<close>.\<close>

definition rateLimited :: "response \<Rightarrow> bool" where
  "rateLimited response =
     (case resp_error response of None \<Rightarrow> False | Some m \<Rightarrow> m \<noteq> [] \<and> includesStr m ''quota'')"

text \<open>
  The retry loop \<^verbatim>\<open>while (retries > 0)\<close>, with \<^verbatim>\<open>response\<close> the last reply
  (\<open>None\<close> before the first request). It ends by \<^verbatim>\<open>break\<close> on a success, by
  \<^verbatim>\<open>throw\<close> on an error that is not a rate limit, or when \<^verbatim>\<open>retries\<close> is 0.
\<close>

fun retryLoop ::
  "page \<Rightarrow> nat \<Rightarrow> response option \<Rightarrow> scrollerState \<Rightarrow> (jsError + response option) \<times> scrollerState" where
  "retryLoop pg 0 response st = (Inr response, st)"
| "retryLoop pg (Suc retries) response st =
     (let sent = sendCaptureFrame pg st;
          response' = fst sent;
          st' = snd sent
      in if resp_success response' then (Inr (Some response'), st')
         else if rateLimited response' then retryLoop pg retries (Some response') st'
         else (Inl (Error (errorOr (resp_error response') ''Failed to capture frame'')), st'))"

text \<open>
  \<^verbatim>\<open>let retries = 3\<close>, the loop, and the test \<^verbatim>\<open>if (!response.success)\<close> after
  it. Reading \<^verbatim>\<open>success\<close> of an \<^verbatim>\<open>undefined\<close> response would be a type error;
  with three retries the loop runs at least once.
\<close>

definition requestFrame :: "page \<Rightarrow> scrollerState \<Rightarrow> (jsError + response) \<times> scrollerState" where
  "requestFrame pg st =
     (case retryLoop pg 3 None st of
        (Inl err, st') \<Rightarrow> (Inl err, st')
      | (Inr None, st') \<Rightarrow> (Inl TypeError, st')
      | (Inr (Some response), st') \<Rightarrow>
          if \<not> resp_success response
          then (Inl (Error (errorOr (resp_error response) ''Failed to capture frame after retries'')), st')
          else (Inr response, st'))"

text \<open>The frame loop of \<^verbatim>\<open>captureWithScrollAndCrop\<close>, from frame \<open>i\<close> on.\<close>

partial_function (option) scrollCropLoop ::
  "page \<Rightarrow> element \<Rightarrow> bool \<Rightarrow> num \<Rightarrow> num \<Rightarrow> num \<Rightarrow> jsCount \<Rightarrow> nat \<Rightarrow> frame list \<Rightarrow> scrollerState
     \<Rightarrow> ((jsError + frame list) \<times> scrollerState) option" where
  "scrollCropLoop pg cropTarget onProgress targetOffsetTop effectiveHeight scrollableForTarget
       totalFrames i frames st =
     (if countLess i totalFrames then
        (let relativeScrollTop = frameOffset i effectiveHeight scrollableForTarget;
             absoluteScrollTop = targetOffsetTop + relativeScrollTop;
             st1 = scrollTo st absoluteScrollTop;
             st2 = reportProgress onProgress (i + 1) totalFrames st1;
             st3 = hideProgress st2;
             requested = requestFrame pg st3;
             st4 = snd requested
         in case fst requested of
              Inl err \<Rightarrow> Some (Inl err, st4)
            | Inr response \<Rightarrow>
                scrollCropLoop pg cropTarget onProgress targetOffsetTop effectiveHeight
                  scrollableForTarget totalFrames (i + 1)
                  (frames @ [\<lparr> fr_dataUrl = resp_dataUrl response,
                                fr_cropRegion = cropRegionOf pg cropTarget st4,
                                fr_scrollTop = relativeScrollTop,
                                fr_frameIndex = i \<rparr>])
                  (showProgress st4))
      else Some (Inr frames, st))"

declare scrollCropLoop.simps [code]

text \<open>
  The numbers \<^verbatim>\<open>captureWithScrollAndCrop\<close> computes before the loop:
  \<open>(targetOffsetTop, effectiveHeight, scrollableForTarget, totalFrames)\<close>.
  \<^verbatim>\<open>targetHeight\<close> is \<^verbatim>\<open>cropTarget.scrollHeight || cropTarget.offsetHeight\<close>.
\<close>

definition scrollCropPlan :: "element \<Rightarrow> element \<Rightarrow> num \<times> num \<times> num \<times> jsCount" where
  "scrollCropPlan scrollContainer cropTarget =
     (let targetOffsetTop = getElementOffsetInContainer cropTarget scrollContainer;
          targetHeight = (if el_scrollHeight cropTarget \<noteq> 0 then el_scrollHeight cropTarget
                          else el_offsetHeight cropTarget);
          containerVisibleHeight = el_clientHeight scrollContainer;
          scrollableForTarget = max 0 (targetHeight - containerVisibleHeight);
          overlapRatio = 2 / 10;
          effectiveHeight = containerVisibleHeight * (1 - overlapRatio);
          totalFrames = (if scrollableForTarget > 0
                         then ceilPlusOne scrollableForTarget effectiveHeight
                         else Count 1)
      in (targetOffsetTop, effectiveHeight, scrollableForTarget, totalFrames))"

definition captureWithScrollAndCrop ::
  "page \<Rightarrow> element \<Rightarrow> element \<Rightarrow> bool \<Rightarrow> scrollerState
     \<Rightarrow> ((jsError + frame list) \<times> scrollerState) option" where
  "captureWithScrollAndCrop pg scrollContainer cropTarget onProgress st =
     (case scrollCropPlan scrollContainer cropTarget of
        (targetOffsetTop, effectiveHeight, scrollableForTarget, totalFrames) \<Rightarrow>
          (let initialScrollTop = st_scrollTop st;
               st1 = hideScrollbars st;
               st2 = scrollTo st1 targetOffsetTop
           in case scrollCropLoop pg cropTarget onProgress targetOffsetTop effectiveHeight
                     scrollableForTarget totalFrames 0 [] st2 of
                None \<Rightarrow> None
              | Some (Inl err, st3) \<Rightarrow> Some (Inl err, finallyBlock st3)
              | Some (Inr frames, st3) \<Rightarrow>
                  Some (Inr frames, finallyBlock (scrollTo st3 initialScrollTop))))"

section \<open>Example inputs\<close>

text \<open>
  Two decoded snapshots, one pixel wide and two rows high; the last row of the first is
  the first row of the second. A third snapshot is two pixels wide.
\<close>

definition exampleTop :: ImageData where
  "exampleTop = \<lparr> img_width = 1, img_height = 2,
                    img_data = [10, 20, 30, 255, 40, 50, 60, 255] \<rparr>"

definition exampleBottom :: ImageData where
  "exampleBottom = \<lparr> img_width = 1, img_height = 2,
                       img_data = [40, 50, 60, 255, 70, 80, 90, 255] \<rparr>"

definition exampleWide :: ImageData where
  "exampleWide = \<lparr> img_width = 2, img_height = 2,
                     img_data = [1, 2, 3, 255, 4, 5, 6, 255, 7, 8, 9, 255, 10, 11, 12, 255] \<rparr>"

definition exampleDecode :: "string \<Rightarrow> ImageData" where
  "exampleDecode url = (if url = ''top'' then exampleTop
                        else if url = ''bottom'' then exampleBottom else exampleWide)"

definition exampleCrop :: "num \<Rightarrow> num \<Rightarrow> cropRegion" where
  "exampleCrop w h = \<lparr> crop_x = 0, crop_y = 0, crop_width = w, crop_height = h,
                        crop_raw = \<lparr> raw_left = 0, raw_top = 0, raw_width = w, raw_height = h \<rparr> \<rparr>"

definition exampleFrame :: "string \<Rightarrow> num \<Rightarrow> num \<Rightarrow> nat \<Rightarrow> frame" where
  "exampleFrame url w h i = \<lparr> fr_dataUrl = url, fr_cropRegion = exampleCrop w h,
                               fr_scrollTop = 0, fr_frameIndex = i \<rparr>"

definition exampleFrames :: "frame list" where
  "exampleFrames = [exampleFrame ''top'' 1 2 0, exampleFrame ''bottom'' 1 2 1]"

definition exampleMixedFrames :: "frame list" where
  "exampleMixedFrames = [exampleFrame ''top'' 1 2 0, exampleFrame ''wide'' 2 2 1]"

text \<open>A frame whose crop has a negative width, and one whose crop has no width.\<close>

definition exampleNegativeFrames :: "frame list" where
  "exampleNegativeFrames = [exampleFrame ''top'' (- 200) 80 0]"

definition exampleEmptyFrames :: "frame list" where
  "exampleEmptyFrames = [exampleFrame ''top'' 1 2 0, exampleFrame ''bottom'' 0 2 1]"

definition exampleOptions :: "bool \<Rightarrow> stitchOptions" where
  "exampleOptions detect = \<lparr> opt_detectDuplicates = Some detect, opt_maxOverlapHeight = Some 1 \<rparr>"

text \<open>
  A scrollable element 500 pixels high with 1000 pixels of content, scrolled to 120, in a
  viewport of 800 by 600 at device pixel ratio 2; a rectangle to the left of that
  viewport; and pages whose background worker always answers with a snapshot, always
  answers with the rate limit of the platform, answers with the rate limit from the
  second request on, or twice before a snapshot.
\<close>

definition exampleRect :: rect where
  "exampleRect = \<lparr> rect_left = 100, rect_top = 50, rect_right = 400, rect_bottom = 550 \<rparr>"

definition exampleOffscreenRect :: rect where
  "exampleOffscreenRect = \<lparr> rect_left = -200, rect_top = 10, rect_right = -100, rect_bottom = 50 \<rparr>"

definition exampleElement :: element where
  "exampleElement = \<lparr> el_id = 1, el_clientHeight = 500, el_scrollHeight = 1000,
                        el_offsetHeight = 500, el_offsetTop = 0, el_offsetParents = [],
                        el_boundingRect = (\<lambda>scrollTop. exampleRect) \<rparr>"

definition exampleState :: scrollerState where
  "exampleState = \<lparr> st_scrollTop = 120, st_scrollbarsHidden = False, st_progressShown = False,
                      st_requests = 0, st_progress = [] \<rparr>"

definition snapshotReply :: response where
  "snapshotReply = \<lparr> resp_success = True, resp_error = None, resp_dataUrl = ''top'' \<rparr>"

definition quotaReply :: response where
  "quotaReply = \<lparr> resp_success = False,
                    resp_error = Some ''This request exceeds the MAX_CAPTURE_VISIBLE_TAB_CALLS_PER_SECOND quota.'',
                    resp_dataUrl = [] \<rparr>"

definition otherReply :: response where
  "otherReply = \<lparr> resp_success = False, resp_error = Some ''No active tab'', resp_dataUrl = [] \<rparr>"

definition examplePage :: "(nat \<Rightarrow> response) \<Rightarrow> page" where
  "examplePage replies = \<lparr> pg_innerWidth = 800, pg_innerHeight = 600, pg_devicePixelRatio = 2,
                            pg_captureFrame = replies \<rparr>"

definition alwaysSnapshot :: "nat \<Rightarrow> response" where
  "alwaysSnapshot k = snapshotReply"

definition alwaysQuota :: "nat \<Rightarrow> response" where
  "alwaysQuota k = quotaReply"

definition quotaAfterFirst :: "nat \<Rightarrow> response" where
  "quotaAfterFirst k = (if k = 0 then snapshotReply else quotaReply)"

definition quotaTwice :: "nat \<Rightarrow> response" where
  "quotaTwice k = (if k < 2 then quotaReply else snapshotReply)"

definition otherFailure :: "nat \<Rightarrow> response" where
  "otherFailure k = otherReply"

definition quotaThenOther :: "nat \<Rightarrow> response" where
  "quotaThenOther k = (if k = 0 then quotaReply else otherReply)"

text \<open>The scroll offsets recorded in the frames a capture returned.\<close>

definition frameOffsets :: "((jsError + frame list) \<times> scrollerState) option \<Rightarrow> num list option" where
  "frameOffsets result =
     (case result of Some (Inr frames, st) \<Rightarrow> Some (map fr_scrollTop frames) | _ \<Rightarrow> None)"

text \<open>The frame expected of a capture of the example element at a given offset.\<close>

definition exampleCaptured :: "num \<Rightarrow> nat \<Rightarrow> frame" where
  "exampleCaptured off i = \<lparr> fr_dataUrl = ''top'',
                              fr_cropRegion = calculateCropRegion exampleRect 800 600 2,
                              fr_scrollTop = off, fr_frameIndex = i \<rparr>"

section \<open>Properties of the overlap detector\<close>

text \<open>The counting loops in closed form.\<close>

lemma fold_counts:
  "fold (\<lambda>s (m, t). (if P s then m + 1 else m, t + 1)) xs (m0, t0)
     = (m0 + length (filter P xs), t0 + length xs)"
  by (induction xs arbitrary: m0 t0) auto

lemma sampleLoop_eq:
  "sampleLoop prevData currData overlap row (m0, t0)
     = (m0 + length (filter (sampleMatches prevData currData overlap row) [0..<sampleCount prevData]),
        t0 + sampleCount prevData)"
  unfolding sampleLoop_def by (subst fold_counts) simp

lemma rowLoop_fold_snd:
  "snd (fold (sampleLoop p c k) rows (m0, t0)) = t0 + length rows * sampleCount p"
  by (induction rows arbitrary: m0 t0) (auto simp: sampleLoop_eq)


lemma rowLoop_fold_all:
  assumes "\<forall>r \<in> set rows. \<forall>s < sampleCount p. sampleMatches p c k r s"
  shows "fst (fold (sampleLoop p c k) rows (m0, t0)) = m0 + length rows * sampleCount p"
  using assms
proof (induction rows arbitrary: m0 t0)
  case Nil
  then show ?case by simp
next
  case (Cons r rows)
  have "filter (sampleMatches p c k r) [0..<sampleCount p] = [0..<sampleCount p]"
    using Cons.prems by (auto intro: filter_True)
  with Cons show ?case by (simp add: sampleLoop_eq)
qed

lemma searchOverlap_bounds:
  "0 \<le> searchOverlap p c k \<and> searchOverlap p c k \<le> max 0 k"
proof (induction p c k rule: searchOverlap.induct)
  case (1 p c k)
  show ?case
  proof (cases "k \<ge> 1")
    case False
    then show ?thesis by (subst searchOverlap.simps, simp)+
  next
    case True
    show ?thesis
    proof (cases "exceedsThreshold (fst (rowLoop p c k)) (snd (rowLoop p c k))")
      case True
      with \<open>k \<ge> 1\<close> show ?thesis by (subst searchOverlap.simps, simp add: Let_def)+
    next
      case False
      from 1 [OF True refl False] have "0 \<le> searchOverlap p c (k - 1) \<and> searchOverlap p c (k - 1) \<le> max 0 (k - 1)" .
      moreover have "searchOverlap p c k = searchOverlap p c (k - 1)"
        using True False by (subst searchOverlap.simps) (simp add: Let_def)
      ultimately show ?thesis by auto
    qed
  qed
qed



text \<open>Reading a pixel of a window that \<^const>\<open>readRegion\<close> cut out.\<close>

lemma readRegion_width: "img_width (readRegion src sx sy (nat sw) (nat sh)) = nat sw"
  and readRegion_height: "img_height (readRegion src sx sy (nat sw) (nat sh)) = nat sh"
  and readRegion_length: "length (img_data (readRegion src sx sy (nat sw) (nat sh))) = 4 * nat sw * nat sh"
  by (simp_all add: readRegion_def)

lemma pixel_index:
  fixes row col ch W :: nat
  assumes "col < W" and "ch < 4"
  shows "((row * W + col) * 4 + ch) div (4 * W) = row"
    and "(((row * W + col) * 4 + ch) div 4) mod W = col"
    and "((row * W + col) * 4 + ch) mod 4 = ch"
proof -
  have m4: "(a * 4 + ch) mod 4 = ch" and q4: "(a * 4 + ch) div 4 = a" for a :: nat
    using assms(2) by simp_all
  have d4: "((row * W + col) * 4 + ch) div 4 = row * W + col"
    by (rule q4)
  show "(((row * W + col) * 4 + ch) div 4) mod W = col"
    unfolding d4 using assms(1) by simp
  have "((row * W + col) * 4 + ch) div (4 * W) = (((row * W + col) * 4 + ch) div 4) div W"
    by (simp only: div_mult2_eq)
  also have "\<dots> = row" unfolding d4 using assms(1) by simp
  finally show "((row * W + col) * 4 + ch) div (4 * W) = row" .
  show "((row * W + col) * 4 + ch) mod 4 = ch" by (rule m4)
qed

lemma pixel_index_bound:
  fixes row col ch W H :: nat
  assumes "row < H" and "col < W" and "ch < 4"
  shows "(row * W + col) * 4 + ch < 4 * W * H"
proof -
  have "Suc row * W \<le> H * W" using assms(1) by (intro mult_le_mono1) simp
  then have "row * W + col < H * W" using assms(2) by simp
  then have "(row * W + col) * 4 + 4 \<le> H * W * 4" by simp
  then show ?thesis using assms(3) by (simp add: mult.commute mult.left_commute)
qed

lemma readRegion_pixelAt:
  assumes "row < nat sh" and "col < nat sw" and "ch < 4"
  shows "pixelAt (img_data (readRegion src sx sy (nat sw) (nat sh))) (int ((row * nat sw + col) * 4 + ch))
       = Some (rasterByte src (sy + int row) (sx + int col) ch)"
proof -
  let ?n = "(row * nat sw + col) * 4 + ch"
  have lt: "?n < 4 * nat sw * nat sh" using assms by (rule pixel_index_bound)
  have "img_data (readRegion src sx sy (nat sw) (nat sh)) ! ?n
      = rasterByte src (sy + int (?n div (4 * nat sw))) (sx + int ((?n div 4) mod nat sw)) (?n mod 4)"
    unfolding readRegion_def using lt by (simp del: of_nat_add of_nat_mult)
  also have "\<dots> = rasterByte src (sy + int row) (sx + int col) ch"
    using pixel_index [OF assms(2,3), of row] by simp
  finally show ?thesis
    using lt by (simp add: pixelAt_def readRegion_length del: of_nat_add of_nat_mult)
qed

lemma channelClose_same: "channelClose (Some v) (Some v)"
  by (simp add: channelClose_def)

lemma sample_column:
  assumes "sample < min W 100"
  shows "sample * (W div min W 100) < (W::nat)"
proof -
  let ?S = "min W 100"
  have "Suc sample * (W div ?S) \<le> ?S * (W div ?S)"
    using assms by (intro mult_le_mono1) simp
  also have "\<dots> \<le> W" by simp
  finally have le: "sample * (W div ?S) + W div ?S \<le> W" by simp
  have "0 < W" using assms by (cases W) auto
  then have "0 < W div ?S" using assms by (simp add: div_greater_zero_iff)
  with le show ?thesis by simp
qed

lemma readRegion_pixelAt_int:
  assumes "row < nat sh" and "col < nat sw" and "ch < 4"
  shows "pixelAt (img_data (readRegion src sx sy (nat sw) (nat sh)))
                 ((int row * int (nat sw) + int col) * 4 + int ch)
       = Some (rasterByte src (sy + int row) (sx + int col) ch)"
proof -
  have "(int row * int (nat sw) + int col) * 4 + int ch = int ((row * nat sw + col) * 4 + ch)"
    by simp
  then show ?thesis using readRegion_pixelAt [OF assms] by simp
qed

lemma window_sampleMatches:
  assumes h: "1 \<le> h"
    and same: "\<forall>row < nat h. \<forall>col < nat w. \<forall>ch < 3.
                 rasterByte prevCanvas (py + int row) (int col) ch
               = rasterByte currCanvas (int row) (int col) ch"
    and row: "row < nat h"
    and sample: "sample < sampleCount (readRegion prevCanvas 0 py (nat w) (nat h))"
  shows "sampleMatches (readRegion prevCanvas 0 py (nat w) (nat h)) (readRegion currCanvas 0 0 (nat w) (nat h)) h row sample"
proof -
  let ?p = "readRegion prevCanvas 0 py (nat w) (nat h)"
  let ?c = "readRegion currCanvas 0 0 (nat w) (nat h)"
  let ?col = "sample * sampleStep ?p"
  have col: "?col < nat w"
    using sample sample_column [of sample "nat w"]
    by (simp add: sampleCount_def sampleStep_def readRegion_width)
  have prevRow: "int (img_height ?p) - h + int row = int row"
    using h by (simp add: readRegion_height)
  have px: "pixelAt (img_data ?p) ((int row * int (nat w) + int ?col) * 4 + int ch)
          = Some (rasterByte prevCanvas (py + int row) (int ?col) ch)" if "ch < 4" for ch
    using readRegion_pixelAt_int [OF row col that, of prevCanvas 0 py] by simp
  have cx: "pixelAt (img_data ?c) ((int row * int (nat w) + int ?col) * 4 + int ch)
          = Some (rasterByte currCanvas (int row) (int ?col) ch)" if "ch < 4" for ch
    using readRegion_pixelAt_int [OF row col that, of currCanvas 0 0] by simp
  have eq: "rasterByte prevCanvas (py + int row) (int ?col) ch
          = rasterByte currCanvas (int row) (int ?col) ch" if "ch < 3" for ch
    using same row col that by blast
  have close: "channelClose (pixelAt (img_data ?p) ((int row * int (nat w) + int ?col) * 4 + int ch))
                            (pixelAt (img_data ?c) ((int row * int (nat w) + int ?col) * 4 + int ch))"
    if "ch < 3" for ch
    using that px [of ch] cx [of ch] eq [of ch] by (simp add: channelClose_same)
  from close [of 0] close [of 1] close [of 2]
  show ?thesis
    unfolding sampleMatches_def Let_def prevRow
    by (simp add: readRegion_width del: of_nat_mult of_nat_add)
qed

lemma rowLoop_all_match:
  assumes "\<forall>row < nat k. \<forall>s < sampleCount p. sampleMatches p c k row s"
  shows "rowLoop p c k = (nat k * sampleCount p, nat k * sampleCount p)"
proof -
  have "fst (rowLoop p c k) = nat k * sampleCount p"
    unfolding rowLoop_def using rowLoop_fold_all [of "[0..<nat k]" p c k 0 0] assms by simp
  moreover have "snd (rowLoop p c k) = nat k * sampleCount p"
    unfolding rowLoop_def by (simp add: rowLoop_fold_snd)
  ultimately show ?thesis by (simp add: prod_eq_iff)
qed

lemma exceedsThreshold_all: "0 < n \<Longrightarrow> exceedsThreshold n n"
  by (simp add: exceedsThreshold_def)

lemma searchOverlap_first:
  assumes "1 \<le> k" and "exceedsThreshold (fst (rowLoop p c k)) (snd (rowLoop p c k))"
  shows "searchOverlap p c k = k"
  using assms by (subst searchOverlap.simps) (simp add: Let_def)

section \<open>Properties of the stitcher\<close>

lemma fold_add_upt:
  "fold (\<lambda>i (acc::int). acc + g i) [a..<b] acc0 = acc0 + (\<Sum>i = a..<b. g i)"
proof (induction b arbitrary: acc0)
  case 0
  then show ?case by simp
next
  case (Suc b)
  then show ?case by (cases "a \<le> b") (simp_all add: sum.atLeastLessThan_Suc)
qed

lemma totalHeightOf_sum:
  assumes "0 < length cfs"
  shows "totalHeightOf cfs ovs
       = (\<Sum>i = 0..<length cfs. cf_height (cfs ! i)) - (\<Sum>i = 1..<length cfs. ovs ! i)"
proof -
  have "totalHeightOf cfs ovs
      = (\<Sum>i = 0..<length cfs. cf_height (cfs ! i) - (if i > 0 then ovs ! i else 0))"
    unfolding totalHeightOf_def by (simp add: fold_add_upt)
  also have "\<dots> = (\<Sum>i = 0..<length cfs. cf_height (cfs ! i))
                 - (\<Sum>i = 0..<length cfs. if i > 0 then ovs ! i else 0)"
    by (simp add: sum_subtractf)
  also have "(\<Sum>i = 0..<length cfs. if i > 0 then ovs ! i else 0) = (\<Sum>i = 1..<length cfs. ovs ! i)"
    using assms by (simp add: sum.atLeast_Suc_lessThan)
  finally show ?thesis .
qed

lemma totalHeightOf_first:
  assumes "0 < length cfs" and "\<forall>i. 0 < i \<and> i < length cfs \<longrightarrow> ovs ! i \<le> cf_height (cfs ! i)"
  shows "cf_height (cfs ! 0) \<le> totalHeightOf cfs ovs"
proof -
  have "totalHeightOf cfs ovs
      = (\<Sum>i = 0..<length cfs. cf_height (cfs ! i) - (if i > 0 then ovs ! i else 0))"
    unfolding totalHeightOf_def by (simp add: fold_add_upt)
  also have "\<dots> = cf_height (cfs ! 0)
                 + (\<Sum>i = Suc 0..<length cfs. cf_height (cfs ! i) - (if i > 0 then ovs ! i else 0))"
    using assms(1) by (simp add: sum.atLeast_Suc_lessThan)
  finally have eq: "totalHeightOf cfs ovs = cf_height (cfs ! 0)
                 + (\<Sum>i = Suc 0..<length cfs. cf_height (cfs ! i) - (if i > 0 then ovs ! i else 0))" .
  have "0 \<le> (\<Sum>i = Suc 0..<length cfs. cf_height (cfs ! i) - (if i > 0 then ovs ! i else 0))"
    using assms(2) by (intro sum_nonneg) simp
  with eq show ?thesis by simp
qed

text \<open>The cropping loop.\<close>

lemma cropFrame_Inr:
  assumes "cropFrame decode f = Inr cropped"
  shows "cf_width cropped = round (crop_width (fr_cropRegion f))"
    and "cf_height cropped = round (crop_height (fr_cropRegion f))"
    and "0 \<le> cf_width cropped" and "0 \<le> cf_height cropped"
    and "img_width (cf_canvas cropped) = nat (cf_width cropped)"
    and "img_height (cf_canvas cropped) = nat (cf_height cropped)"
  using assms
  by (auto simp: cropFrame_def Let_def newOffscreenCanvas_def drawCropped_def readRegion_def
           split: if_splits)

lemma cropFrame_Inl: "cropFrame decode f = Inl err \<Longrightarrow> err = TypeError"
  by (auto simp: cropFrame_def Let_def newOffscreenCanvas_def split: if_splits)

lemma cropFrame_success:
  assumes "0 \<le> round (crop_width (fr_cropRegion f))" and "0 \<le> round (crop_height (fr_cropRegion f))"
  shows "\<exists>cropped. cropFrame decode f = Inr cropped"
  using assms by (simp add: cropFrame_def Let_def newOffscreenCanvas_def)

lemma cropLoop_Inr:
  assumes "cropLoop decode fs acc = Inr cfs"
  shows "\<exists>new. cfs = acc @ new \<and> length new = length fs
             \<and> (\<forall>i < length fs. cropFrame decode (fs ! i) = Inr (new ! i))"
  using assms
proof (induction fs arbitrary: acc)
  case Nil
  then show ?case by simp
next
  case (Cons f fs)
  from Cons.prems obtain cropped where c: "cropFrame decode f = Inr cropped"
    and rest: "cropLoop decode fs (acc @ [cropped]) = Inr cfs"
    by (auto split: sum.splits)
  from Cons.IH [OF rest] obtain new where new: "cfs = (acc @ [cropped]) @ new"
    "length new = length fs" "\<forall>i < length fs. cropFrame decode (fs ! i) = Inr (new ! i)"
    by blast
  have "\<forall>i < length (f # fs). cropFrame decode ((f # fs) ! i) = Inr ((cropped # new) ! i)"
    using c new(3) by (auto simp: nth_Cons split: nat.splits)
  with new(1,2) show ?case by (intro exI [of _ "cropped # new"]) simp
qed

lemma cropLoop_Inl: "cropLoop decode fs acc = Inl err \<Longrightarrow> err = TypeError"
  by (induction fs arbitrary: acc) (auto split: sum.splits dest: cropFrame_Inl)

lemma cropLoop_success:
  assumes "\<forall>f \<in> set fs. \<exists>cropped. cropFrame decode f = Inr cropped"
  shows "\<exists>cfs. cropLoop decode fs acc = Inr cfs"
  using assms by (induction fs arbitrary: acc) auto

lemma croppedFramesOf_Inr:
  assumes "croppedFramesOf decode frames = Inr cfs"
  shows "length cfs = length frames"
    and "\<forall>i < length frames. cropFrame decode (frames ! i) = Inr (cfs ! i)"
  using cropLoop_Inr [OF assms [unfolded croppedFramesOf_def]] by auto

text \<open>The overlap loop.\<close>

lemma pairOverlap_Inl: "pairOverlap m p c = Inl err \<Longrightarrow> err = IndexSizeError"
  by (auto simp: pairOverlap_def Let_def getImageData_def split: if_splits sum.splits)

lemma pairOverlap_bounds:
  assumes "pairOverlap m p c = Inr k"
  shows "0 \<le> k \<and> k \<le> max 0 (min m (min (cf_height p) (cf_height c)))"
proof -
  from assms obtain prevData currData where
    "k = detectOverlap prevData currData (min m (min (cf_height p) (cf_height c)))"
    by (auto simp: pairOverlap_def Let_def split: sum.splits)
  then show ?thesis unfolding detectOverlap_def using searchOverlap_bounds by blast
qed

lemma pairOverlap_success:
  assumes "cf_width p \<noteq> 0" and "cf_width c \<noteq> 0" and "min m (min (cf_height p) (cf_height c)) \<noteq> 0"
  shows "\<exists>k. pairOverlap m p c = Inr k"
  using assms by (simp add: pairOverlap_def Let_def getImageData_def)

lemma overlapLoop_Suc:
  assumes "1 \<le> n"
  shows "overlapLoop m cfs (Suc n)
       = (case overlapLoop m cfs n of
            Inl err \<Rightarrow> Inl err
          | Inr overlaps \<Rightarrow>
              (case pairOverlap m (cfs ! (n - 1)) (cfs ! n) of
                 Inl err \<Rightarrow> Inl err
               | Inr overlap \<Rightarrow> Inr (overlaps @ [overlap])))"
  using assms by (simp add: overlapLoop_def del: One_nat_def)

lemma overlapLoop_one: "overlapLoop m cfs (Suc 0) = Inr [0]"
  by (simp add: overlapLoop_def)

lemma overlapLoop_Inr:
  assumes "1 \<le> n" and "overlapLoop m cfs n = Inr ovs"
  shows "length ovs = n \<and> ovs ! 0 = 0
       \<and> (\<forall>i. 1 \<le> i \<and> i < n \<longrightarrow> pairOverlap m (cfs ! (i - 1)) (cfs ! i) = Inr (ovs ! i))"
  using assms
proof (induction n arbitrary: ovs)
  case 0
  then show ?case by simp
next
  case (Suc n)
  show ?case
  proof (cases "n = 0")
    case True
    with Suc.prems(2) have "ovs = [0]" by (simp add: overlapLoop_one)
    with True show ?thesis by simp
  next
    case False
    then have n: "1 \<le> n" by simp
    from Suc.prems(2) obtain ovs' k where
      prev: "overlapLoop m cfs n = Inr ovs'"
      and k: "pairOverlap m (cfs ! (n - 1)) (cfs ! n) = Inr k"
      and ovs: "ovs = ovs' @ [k]"
      unfolding overlapLoop_Suc [OF n] by (auto split: sum.splits)
    from Suc.IH [OF n prev] have ih: "length ovs' = n" "ovs' ! 0 = 0"
      "\<forall>i. 1 \<le> i \<and> i < n \<longrightarrow> pairOverlap m (cfs ! (i - 1)) (cfs ! i) = Inr (ovs' ! i)"
      by simp_all
    have "pairOverlap m (cfs ! (i - 1)) (cfs ! i) = Inr (ovs ! i)" if "1 \<le> i" "i < Suc n" for i
    proof (cases "i = n")
      case True
      with k ih(1) show ?thesis by (simp add: ovs nth_append)
    next
      case False
      with that have "i < n" by simp
      with ih(1,3) that(1) show ?thesis by (simp add: ovs nth_append)
    qed
    moreover have "length ovs = Suc n" "ovs ! 0 = 0"
      using ih(1,2) n by (simp_all add: ovs nth_append)
    ultimately show ?thesis by blast
  qed
qed

lemma overlapLoop_Inl: "overlapLoop m cfs n = Inl err \<Longrightarrow> err = IndexSizeError"
proof (induction n)
  case 0
  then show ?case by (simp add: overlapLoop_def)
next
  case (Suc n)
  show ?case
  proof (cases "n = 0")
    case True
    with Suc.prems show ?thesis by (simp add: overlapLoop_one)
  next
    case False
    then have n: "1 \<le> n" by simp
    from Suc.prems Suc.IH show ?thesis
      unfolding overlapLoop_Suc [OF n] by (auto split: sum.splits dest: pairOverlap_Inl)
  qed
qed

lemma overlapLoop_success:
  assumes "\<forall>i. 1 \<le> i \<and> i < n \<longrightarrow> (\<exists>k. pairOverlap m (cfs ! (i - 1)) (cfs ! i) = Inr k)"
  shows "\<exists>ovs. overlapLoop m cfs n = Inr ovs"
  using assms
proof (induction n)
  case 0
  then show ?case by (simp add: overlapLoop_def)
next
  case (Suc n)
  show ?case
  proof (cases "n = 0")
    case True
    then show ?thesis by (simp add: overlapLoop_one)
  next
    case False
    then have n: "1 \<le> n" by simp
    from Suc.IH Suc.prems obtain ovs' where "overlapLoop m cfs n = Inr ovs'" by auto
    moreover from Suc.prems n obtain k where "pairOverlap m (cfs ! (n - 1)) (cfs ! n) = Inr k"
      by auto
    ultimately show ?thesis unfolding overlapLoop_Suc [OF n] by simp
  qed
qed

lemma computeOverlaps_Inr:
  assumes "0 < length cfs" and "computeOverlaps dd m cfs = Inr ovs"
  shows "length ovs = length cfs" and "ovs ! 0 = 0"
    and "\<forall>i. 0 < i \<and> i < length cfs \<longrightarrow>
           (if dd then pairOverlap m (cfs ! (i - 1)) (cfs ! i) = Inr (ovs ! i) else ovs ! i = 0)"
proof -
  have both: "length ovs = length cfs \<and> ovs ! 0 = 0"
  proof (cases "dd \<and> length cfs > 1")
    case True
    with assms(2) have "overlapLoop m cfs (length cfs) = Inr ovs"
      by (simp add: computeOverlaps_def)
    from overlapLoop_Inr [OF _ this] True show ?thesis by simp
  next
    case False
    with assms(2) have "ovs = 0 # map (\<lambda>i. 0) [1..<length cfs]"
      by (auto simp: computeOverlaps_def)
    with assms(1) show ?thesis by simp
  qed
  then show "length ovs = length cfs" and "ovs ! 0 = 0" by simp_all
  show "\<forall>i. 0 < i \<and> i < length cfs \<longrightarrow>
           (if dd then pairOverlap m (cfs ! (i - 1)) (cfs ! i) = Inr (ovs ! i) else ovs ! i = 0)"
  proof (intro allI impI)
    fix i assume i: "0 < i \<and> i < length cfs"
    then obtain j where j: "i = Suc j" "j < length cfs - 1" by (cases i) auto
    show "if dd then pairOverlap m (cfs ! (i - 1)) (cfs ! i) = Inr (ovs ! i) else ovs ! i = 0"
    proof (cases dd)
      case True
      with i assms(2) have "overlapLoop m cfs (length cfs) = Inr ovs"
        by (auto simp: computeOverlaps_def split: if_splits)
      from overlapLoop_Inr [OF _ this] i True show ?thesis by auto
    next
      case False
      with assms(2) have "ovs = 0 # map (\<lambda>i. 0) [1..<length cfs]"
        by (simp add: computeOverlaps_def)
      with False j show ?thesis by simp
    qed
  qed
qed

lemma computeOverlaps_Inl: "computeOverlaps dd m cfs = Inl err \<Longrightarrow> err = IndexSizeError"
  by (auto simp: computeOverlaps_def split: if_splits dest: overlapLoop_Inl)

lemma computeOverlaps_success:
  assumes "\<forall>i. 1 \<le> i \<and> i < length cfs \<longrightarrow> (\<exists>k. pairOverlap m (cfs ! (i - 1)) (cfs ! i) = Inr k)"
  shows "\<exists>ovs. computeOverlaps dd m cfs = Inr ovs"
  using overlapLoop_success [OF assms] by (simp add: computeOverlaps_def)

text \<open>The final loop.\<close>

lemma drawLoop_fold_Inl:
  assumes "fold (\<lambda>i result.
             case result of
               Inl err \<Rightarrow> Inl err
             | Inr (currentY, draws) \<Rightarrow>
                 (let frame = cfs ! i;
                      overlap = ovs ! i;
                      sourceY = (if i = 0 then 0 else overlap);
                      sourceHeight = cf_height frame - sourceY
                  in if noPixels (img_width (cf_canvas frame), img_height (cf_canvas frame))
                     then Inl InvalidStateError
                     else Inr (currentY + sourceHeight, draws @ [(sourceY, sourceHeight, currentY)])))
          xs init = Inl err"
    and "\<forall>e. init = Inl e \<longrightarrow> e = InvalidStateError"
  shows "err = InvalidStateError"
  using assms
proof (induction xs arbitrary: init)
  case Nil
  then show ?case by simp
next
  case (Cons x xs)
  show ?case
    by (rule Cons.IH [OF Cons.prems(1) [simplified]])
       (use Cons.prems(2) in \<open>auto simp: Let_def split: sum.splits if_splits\<close>)
qed

lemma drawLoop_Inl: "drawLoop cfs ovs = Inl err \<Longrightarrow> err = InvalidStateError"
  unfolding drawLoop_def by (erule drawLoop_fold_Inl) simp

lemma drawLoop_fold_success:
  assumes "\<forall>i \<in> set xs. \<not> noPixels (img_width (cf_canvas (cfs ! i)), img_height (cf_canvas (cfs ! i)))"
  shows "\<exists>drawn. fold (\<lambda>i result.
             case result of
               Inl err \<Rightarrow> Inl err
             | Inr (currentY, draws) \<Rightarrow>
                 (let frame = cfs ! i;
                      overlap = ovs ! i;
                      sourceY = (if i = 0 then 0 else overlap);
                      sourceHeight = cf_height frame - sourceY
                  in if noPixels (img_width (cf_canvas frame), img_height (cf_canvas frame))
                     then Inl InvalidStateError
                     else Inr (currentY + sourceHeight, draws @ [(sourceY, sourceHeight, currentY)])))
          xs (Inr init) = Inr drawn"
  using assms
proof (induction xs arbitrary: init)
  case Nil
  then show ?case by simp
next
  case (Cons x xs)
  obtain y ds where init: "init = (y, ds)" by (cases init)
  from Cons.prems have "\<forall>i \<in> set xs. \<not> noPixels (img_width (cf_canvas (cfs ! i)), img_height (cf_canvas (cfs ! i)))"
    and x: "\<not> noPixels (img_width (cf_canvas (cfs ! x)), img_height (cf_canvas (cfs ! x)))"
    by simp_all
  from Cons.IH [OF this(1)] x show ?case by (simp add: init Let_def)
qed

lemma drawLoop_success:
  assumes "\<forall>i < length cfs. \<not> noPixels (img_width (cf_canvas (cfs ! i)), img_height (cf_canvas (cfs ! i)))"
  shows "\<exists>drawn. drawLoop cfs ovs = Inr drawn"
  unfolding drawLoop_def using assms by (intro drawLoop_fold_success) simp

text \<open>What \<^const>\<open>stitchFrames\<close> returns.\<close>

lemma stitchFrames_Inr:
  assumes "stitchFrames decode frames options = Inr composite"
  shows "\<exists>cfs ovs. frames \<noteq> []
           \<and> croppedFramesOf decode frames = Inr cfs
           \<and> overlapsOf decode frames options = Inr ovs
           \<and> out_width composite = round (crop_width (fr_cropRegion (frames ! 0)))
           \<and> out_height composite = totalHeightOf cfs ovs
           \<and> 0 < out_width composite \<and> 0 < out_height composite"
  using assms
  by (auto simp: stitchFrames_def overlapsOf_def Let_def newOffscreenCanvas_def noPixels_def
           split: if_splits sum.splits)

lemma stitchFrames_Inl:
  assumes "stitchFrames decode frames options = Inl err"
  shows "err = Error ''No frames to stitch'' \<and> frames = []
       \<or> err = TypeError \<or> err = IndexSizeError \<or> err = InvalidStateError"
  using assms
  by (auto simp: stitchFrames_def croppedFramesOf_def Let_def newOffscreenCanvas_def
           split: if_splits sum.splits
           dest: cropLoop_Inl computeOverlaps_Inl drawLoop_Inl)

lemma stitchFrames_success:
  assumes ne: "frames \<noteq> []"
    and pos: "\<forall>f \<in> set frames. 0 < round (crop_width (fr_cropRegion f))
                              \<and> 0 < round (crop_height (fr_cropRegion f))"
    and m: "maxOverlapHeightOf options \<noteq> 0"
  shows "\<exists>composite. stitchFrames decode frames options = Inr composite"
proof -
  let ?dd = "detectDuplicatesOf options"
  let ?m = "maxOverlapHeightOf options"
  have "\<forall>f \<in> set frames. \<exists>cropped. cropFrame decode f = Inr cropped"
    using pos by (auto intro!: cropFrame_success simp: less_imp_le)
  from cropLoop_success [OF this, of "[]"] obtain cfs where
    cfs: "croppedFramesOf decode frames = Inr cfs" unfolding croppedFramesOf_def by blast
  note len = croppedFramesOf_Inr(1) [OF cfs]
  have dims: "0 < cf_width (cfs ! i) \<and> 0 < cf_height (cfs ! i)
            \<and> img_width (cf_canvas (cfs ! i)) = nat (cf_width (cfs ! i))
            \<and> img_height (cf_canvas (cfs ! i)) = nat (cf_height (cfs ! i))
            \<and> cf_width (cfs ! i) = round (crop_width (fr_cropRegion (frames ! i)))"
    if "i < length frames" for i
  proof -
    from croppedFramesOf_Inr(2) [OF cfs] that have c: "cropFrame decode (frames ! i) = Inr (cfs ! i)"
      by simp
    from that pos have "0 < round (crop_width (fr_cropRegion (frames ! i)))"
      "0 < round (crop_height (fr_cropRegion (frames ! i)))" by simp_all
    with cropFrame_Inr [OF c] show ?thesis by simp
  qed
  have pairs: "\<forall>i. 1 \<le> i \<and> i < length cfs \<longrightarrow> (\<exists>k. pairOverlap ?m (cfs ! (i - 1)) (cfs ! i) = Inr k)"
  proof (intro allI impI)
    fix i assume i: "1 \<le> i \<and> i < length cfs"
    then have "i - 1 < length frames" "i < length frames" using len by auto
    from dims [OF this(1)] dims [OF this(2)]
    have w: "cf_width (cfs ! (i - 1)) \<noteq> 0" "cf_width (cfs ! i) \<noteq> 0"
      and h: "0 < cf_height (cfs ! (i - 1))" "0 < cf_height (cfs ! i)"
      by simp_all
    from h m have "min ?m (min (cf_height (cfs ! (i - 1))) (cf_height (cfs ! i))) \<noteq> 0"
      by (simp add: min_def)
    with w show "\<exists>k. pairOverlap ?m (cfs ! (i - 1)) (cfs ! i) = Inr k"
      by (intro pairOverlap_success)
  qed
  from computeOverlaps_success [OF pairs] obtain ovs where
    ovs: "computeOverlaps ?dd ?m cfs = Inr ovs" by blast
  have len0: "0 < length cfs" using ne len by simp
  have small: "\<forall>i. 0 < i \<and> i < length cfs \<longrightarrow> ovs ! i \<le> cf_height (cfs ! i)"
  proof (intro allI impI)
    fix i assume i: "0 < i \<and> i < length cfs"
    then have h: "0 < cf_height (cfs ! i)" using dims [of i] len by simp
    show "ovs ! i \<le> cf_height (cfs ! i)"
    proof (cases ?dd)
      case True
      with computeOverlaps_Inr(3) [OF len0 ovs] i
      have "pairOverlap ?m (cfs ! (i - 1)) (cfs ! i) = Inr (ovs ! i)" by simp
      from pairOverlap_bounds [OF this] h show ?thesis by linarith
    next
      case False
      with computeOverlaps_Inr(3) [OF len0 ovs] i have "ovs ! i = 0" by simp
      with h show ?thesis by simp
    qed
  qed
  have total: "0 < totalHeightOf cfs ovs"
    using totalHeightOf_first [OF len0 small] dims [of 0] ne by simp
  have width: "0 < round (crop_width (fr_cropRegion (frames ! 0)))"
    using dims [of 0] ne by simp
  have "\<forall>i < length cfs. \<not> noPixels (img_width (cf_canvas (cfs ! i)), img_height (cf_canvas (cfs ! i)))"
  proof (intro allI impI)
    fix i assume "i < length cfs"
    then have "i < length frames" using len by simp
    from dims [OF this]
    show "\<not> noPixels (img_width (cf_canvas (cfs ! i)), img_height (cf_canvas (cfs ! i)))"
      by (simp add: noPixels_def)
  qed
  from drawLoop_success [OF this] obtain drawn where drawn: "drawLoop cfs ovs = Inr drawn" by blast
  show ?thesis
    using ne cfs ovs total width drawn
    by (simp add: stitchFrames_def Let_def newOffscreenCanvas_def noPixels_def)
qed

text \<open>The example frames, evaluated.\<close>

lemma example_stitch_detect:
  "stitchFrames exampleDecode exampleFrames (exampleOptions True)
     = Inr \<lparr>out_width = 1, out_height = 3, out_draws = [(0, 2, 0), (1, 1, 2)]\<rparr>"
  by code_simp

lemma example_stitch_plain:
  "stitchFrames exampleDecode exampleFrames (exampleOptions False)
     = Inr \<lparr>out_width = 1, out_height = 4, out_draws = [(0, 2, 0), (0, 2, 2)]\<rparr>"
  by code_simp

lemma example_cropped:
  "croppedFramesOf exampleDecode exampleFrames
     = Inr [\<lparr>cf_canvas = exampleTop, cf_width = 1, cf_height = 2\<rparr>,
            \<lparr>cf_canvas = exampleBottom, cf_width = 1, cf_height = 2\<rparr>]"
  by code_simp

lemma example_overlaps_detect:
  "overlapsOf exampleDecode exampleFrames (exampleOptions True) = Inr [0, 1]"
  by code_simp

lemma example_overlaps_plain:
  "overlapsOf exampleDecode exampleFrames (exampleOptions False) = Inr [0, 0]"
  by code_simp

lemma example_frames_length: "length exampleFrames = 2" "exampleFrames \<noteq> []"
  by (simp_all add: exampleFrames_def)

lemma example_mixed_cropped:
  "croppedFramesOf exampleDecode exampleMixedFrames
     = Inr [\<lparr>cf_canvas = exampleTop, cf_width = 1, cf_height = 2\<rparr>,
            \<lparr>cf_canvas = exampleWide, cf_width = 2, cf_height = 2\<rparr>]"
  by code_simp

lemma example_mixed_stitch:
  "stitchFrames exampleDecode exampleMixedFrames (exampleOptions True)
     = Inr \<lparr>out_width = 1, out_height = 4, out_draws = [(0, 2, 0), (0, 2, 2)]\<rparr>"
  by code_simp

lemma example_failing_stitches:
  "stitchFrames exampleDecode exampleNegativeFrames (exampleOptions True) = Inl TypeError"
  "stitchFrames exampleDecode exampleEmptyFrames (exampleOptions True) = Inl IndexSizeError"
  "stitchFrames exampleDecode exampleEmptyFrames (exampleOptions False) = Inl InvalidStateError"
  by code_simp+

section \<open>Properties of the scheduler\<close>

text \<open>The frame loop of \<^const>\<open>captureFrames\<close> when every request succeeds.\<close>

lemma calculateFrames_scenario:
  assumes "el_scrollHeight el = 1000" and "el_clientHeight el = 500"
  shows "calculateFrames el st
       = \<lparr> fi_totalFrames = Count 3, fi_frameHeight = 400, fi_scrollableHeight = 500,
           fi_initialScrollTop = st_scrollTop st, fi_clientHeight = Some 500 \<rparr>"
proof -
  have "\<lceil>(500::rat) / 400\<rceil> = 2" by (simp add: ceiling_eq_iff)
  then show ?thesis using assms by (simp add: calculateFrames_def Let_def ceilPlusOne_def)
qed

lemmas scroller_steps =
  scrollTo_def showProgress_def hideProgress_def reportProgress_def sendCaptureFrame_def
  hideScrollbars_def restoreScrollbars_def finallyBlock_def

lemma captureFramesLoop_step:
  assumes "countLess i (fi_totalFrames fi)"
    and "resp_success (pg_captureFrame pg (st_requests st))"
  shows "captureFramesLoop pg el onProgress fi i frames st
       = captureFramesLoop pg el onProgress fi (i + 1)
           (frames @ [\<lparr> fr_dataUrl = resp_dataUrl (pg_captureFrame pg (st_requests st)),
                         fr_cropRegion = cropRegionOf pg el
                           (snd (sendCaptureFrame pg (hideProgress (reportProgress onProgress (i + 1)
                              (fi_totalFrames fi) (showProgress (scrollTo st
                                 (frameOffset i (fi_frameHeight fi) (fi_scrollableHeight fi)))))))),
                         fr_scrollTop = frameOffset i (fi_frameHeight fi) (fi_scrollableHeight fi),
                         fr_frameIndex = i \<rparr>])
           (snd (sendCaptureFrame pg (hideProgress (reportProgress onProgress (i + 1)
              (fi_totalFrames fi) (showProgress (scrollTo st
                 (frameOffset i (fi_frameHeight fi) (fi_scrollableHeight fi))))))))"
proof -
  have req: "st_requests (hideProgress (reportProgress onProgress (i + 1)
              (fi_totalFrames fi) (showProgress (scrollTo st off)))) = st_requests st" for off
    by (simp add: scroller_steps)
  show ?thesis
    by (subst captureFramesLoop.simps)
       (simp add: assms Let_def sendCaptureFrame_def req del: One_nat_def)
qed

lemma captureFramesLoop_stop:
  "\<not> countLess i (fi_totalFrames fi)
   \<Longrightarrow> captureFramesLoop pg el onProgress fi i frames st = Some (Inr frames, st)"
  by (subst captureFramesLoop.simps) simp

lemma step_requests:
  "st_requests (snd (sendCaptureFrame pg (hideProgress (reportProgress onProgress current totalFrames
      (showProgress (scrollTo st off)))))) = Suc (st_requests st)"
  by (simp add: scroller_steps)

lemma captureFramesLoop_run:
  assumes "fi_totalFrames fi = Count (int n)"
    and "\<forall>k < n - i. resp_success (pg_captureFrame pg (st_requests st + k))"
  shows "\<exists>new st'. captureFramesLoop pg el onProgress fi i frames st = Some (Inr (frames @ new), st')
           \<and> map fr_scrollTop new
               = map (\<lambda>j. frameOffset j (fi_frameHeight fi) (fi_scrollableHeight fi)) [i..<n]"
  using assms(2)
proof (induction "n - i" arbitrary: i frames st)
  case 0
  then have "\<not> countLess i (fi_totalFrames fi)" by (simp add: assms(1))
  then show ?case using 0 by (simp add: captureFramesLoop_stop)
next
  case (Suc d)
  let ?off = "frameOffset i (fi_frameHeight fi) (fi_scrollableHeight fi)"
  let ?st' = "snd (sendCaptureFrame pg (hideProgress (reportProgress onProgress (i + 1)
                (fi_totalFrames fi) (showProgress (scrollTo st ?off)))))"
  let ?f = "\<lparr> fr_dataUrl = resp_dataUrl (pg_captureFrame pg (st_requests st)),
              fr_cropRegion = cropRegionOf pg el ?st', fr_scrollTop = ?off, fr_frameIndex = i \<rparr>"
  from Suc.hyps(2) have lt: "i < n" and d: "d = n - (i + 1)" by simp_all
  have less: "countLess i (fi_totalFrames fi)" using lt by (simp add: assms(1))
  have ok: "resp_success (pg_captureFrame pg (st_requests st))"
    using Suc.prems [rule_format, of 0] lt by simp
  have rest: "\<forall>k < n - (i + 1). resp_success (pg_captureFrame pg (st_requests ?st' + k))"
  proof (intro allI impI)
    fix k assume "k < n - (i + 1)"
    then have "Suc k < n - i" by simp
    from Suc.prems [rule_format, OF this] show "resp_success (pg_captureFrame pg (st_requests ?st' + k))"
      by (simp add: step_requests del: One_nat_def)
  qed
  from Suc.hyps(1) [OF d rest, of "frames @ [?f]"]
  obtain new st'' where
    run: "captureFramesLoop pg el onProgress fi (i + 1) (frames @ [?f]) ?st'
            = Some (Inr ((frames @ [?f]) @ new), st'')"
    and offs: "map fr_scrollTop new
            = map (\<lambda>j. frameOffset j (fi_frameHeight fi) (fi_scrollableHeight fi)) [i + 1..<n]"
    by blast
  have "captureFramesLoop pg el onProgress fi i frames st = Some (Inr (frames @ (?f # new)), st'')"
    using captureFramesLoop_step [OF less ok, of el onProgress frames] run by simp
  moreover have "map fr_scrollTop (?f # new)
            = map (\<lambda>j. frameOffset j (fi_frameHeight fi) (fi_scrollableHeight fi)) [i..<n]"
    using offs lt by (simp add: upt_conv_Cons)
  ultimately show ?case by blast
qed

text \<open>The retry loop: its three outcomes, and what it does to the state.\<close>

lemma rateLimited_message:
  assumes "rateLimited r"
  shows "\<exists>m. resp_error r = Some m \<and> includesStr m ''quota'' \<and> errorOr (resp_error r) fallback = m"
  using assms by (auto simp: rateLimited_def errorOr_def split: option.splits)

lemma requestFrame_exhausted:
  assumes "\<forall>k < 3. \<not> resp_success (pg_captureFrame pg (st_requests st + k))
                   \<and> rateLimited (pg_captureFrame pg (st_requests st + k))"
  shows "requestFrame pg st
       = (Inl (Error (errorOr (resp_error (pg_captureFrame pg (st_requests st + 2)))
                       ''Failed to capture frame after retries'')),
          st\<lparr>st_requests := st_requests st + 3\<rparr>)"
proof -
  from assms [rule_format, of 0] assms [rule_format, of 1] assms [rule_format, of 2]
  have "\<not> resp_success (pg_captureFrame pg (st_requests st))"
       "rateLimited (pg_captureFrame pg (st_requests st))"
       "\<not> resp_success (pg_captureFrame pg (Suc (st_requests st)))"
       "rateLimited (pg_captureFrame pg (Suc (st_requests st)))"
       "\<not> resp_success (pg_captureFrame pg (Suc (Suc (st_requests st))))"
       "rateLimited (pg_captureFrame pg (Suc (Suc (st_requests st))))"
    by simp_all
  then show ?thesis
    by (simp add: requestFrame_def numeral_3_eq_3 Let_def sendCaptureFrame_def)
qed

lemma requestFrame_immediate:
  assumes "\<not> resp_success (pg_captureFrame pg (st_requests st))"
    and "\<not> rateLimited (pg_captureFrame pg (st_requests st))"
  shows "requestFrame pg st
       = (Inl (Error (errorOr (resp_error (pg_captureFrame pg (st_requests st)))
                       ''Failed to capture frame'')),
          st\<lparr>st_requests := st_requests st + 1\<rparr>)"
  using assms by (simp add: requestFrame_def numeral_3_eq_3 Let_def sendCaptureFrame_def)

lemma requestFrame_other:
  assumes "j < 3"
    and "\<forall>k < j. \<not> resp_success (pg_captureFrame pg (st_requests st + k))
                   \<and> rateLimited (pg_captureFrame pg (st_requests st + k))"
    and "\<not> resp_success (pg_captureFrame pg (st_requests st + j))"
    and "\<not> rateLimited (pg_captureFrame pg (st_requests st + j))"
  shows "requestFrame pg st
       = (Inl (Error (errorOr (resp_error (pg_captureFrame pg (st_requests st + j)))
                       ''Failed to capture frame'')),
          st\<lparr>st_requests := st_requests st + j + 1\<rparr>)"
proof -
  from assms(1) consider "j = 0" | "j = 1" | "j = 2" by linarith
  then show ?thesis
  proof cases
    case 1
    with assms(3,4) show ?thesis
      by (simp add: requestFrame_def numeral_3_eq_3 Let_def sendCaptureFrame_def)
  next
    case 2
    with assms(2) [rule_format, of 0] assms(3,4) show ?thesis
      by (simp add: requestFrame_def numeral_3_eq_3 Let_def sendCaptureFrame_def)
  next
    case 3
    with assms(2) [rule_format, of 0] assms(2) [rule_format, of 1] assms(3,4) show ?thesis
      by (simp add: requestFrame_def numeral_3_eq_3 numeral_2_eq_2 Let_def sendCaptureFrame_def)
  qed
qed

lemma requestFrame_success:
  assumes "j < 3"
    and "\<forall>k < j. \<not> resp_success (pg_captureFrame pg (st_requests st + k))
                   \<and> rateLimited (pg_captureFrame pg (st_requests st + k))"
    and "resp_success (pg_captureFrame pg (st_requests st + j))"
  shows "requestFrame pg st
       = (Inr (pg_captureFrame pg (st_requests st + j)), st\<lparr>st_requests := st_requests st + j + 1\<rparr>)"
proof -
  from assms(1) consider "j = 0" | "j = 1" | "j = 2" by linarith
  then show ?thesis
  proof cases
    case 1
    with assms(3) show ?thesis
      by (simp add: requestFrame_def numeral_3_eq_3 Let_def sendCaptureFrame_def)
  next
    case 2
    with assms(2) [rule_format, of 0] assms(3) show ?thesis
      by (simp add: requestFrame_def numeral_3_eq_3 Let_def sendCaptureFrame_def)
  next
    case 3
    with assms(2) [rule_format, of 0] assms(2) [rule_format, of 1] assms(3) show ?thesis
      by (simp add: requestFrame_def numeral_3_eq_3 numeral_2_eq_2 Let_def sendCaptureFrame_def)
  qed
qed

lemma retryLoop_state:
  "\<exists>k \<le> retries. snd (retryLoop pg retries response st) = st\<lparr>st_requests := st_requests st + k\<rparr>"
proof (induction retries arbitrary: response st)
  case 0
  then show ?case by simp
next
  case (Suc retries)
  let ?st' = "st\<lparr>st_requests := Suc (st_requests st)\<rparr>"
  let ?r = "pg_captureFrame pg (st_requests st)"
  from Suc [of "Some ?r" ?st'] obtain k where
    k: "k \<le> retries" "snd (retryLoop pg retries (Some ?r) ?st') = ?st'\<lparr>st_requests := st_requests ?st' + k\<rparr>"
    by blast
  show ?case
  proof (cases "\<not> resp_success ?r \<and> rateLimited ?r")
    case True
    with k have "snd (retryLoop pg (Suc retries) response st) = st\<lparr>st_requests := st_requests st + Suc k\<rparr>"
      by (simp add: Let_def sendCaptureFrame_def)
    with k(1) show ?thesis by (intro exI [of _ "Suc k"]) simp
  next
    case False
    then have "snd (retryLoop pg (Suc retries) response st) = st\<lparr>st_requests := st_requests st + 1\<rparr>"
      by (auto simp: Let_def sendCaptureFrame_def)
    then show ?thesis by (intro exI [of _ 1]) simp
  qed
qed

lemma requestFrame_state:
  "\<exists>k \<le> 3. snd (requestFrame pg st) = st\<lparr>st_requests := st_requests st + k\<rparr>"
proof -
  from retryLoop_state [of 3 pg None st] obtain k where
    "k \<le> 3" "snd (retryLoop pg 3 None st) = st\<lparr>st_requests := st_requests st + k\<rparr>" by blast
  moreover have "snd (requestFrame pg st) = snd (retryLoop pg 3 None st)"
    by (simp add: requestFrame_def split: prod.splits sum.splits option.splits)
  ultimately show ?thesis by auto
qed

lemma requestFrame_scrollTop: "st_scrollTop (snd (requestFrame pg st)) = st_scrollTop st"
  using requestFrame_state [of pg st] by auto

text \<open>The frame loop of \<^const>\<open>captureWithScrollAndCrop\<close>.\<close>

lemma before_request:
  "st_requests (hideProgress (reportProgress onProgress current totalFrames (scrollTo st off)))
     = st_requests st"
  "st_scrollTop (hideProgress (reportProgress onProgress current totalFrames (scrollTo st off)))
     = off"
  by (simp_all add: scroller_steps)

lemma scrollCropLoop_unfold:
  assumes "countLess i totalFrames"
  shows "scrollCropLoop pg cropTarget onProgress targetOffsetTop effectiveHeight scrollableForTarget
           totalFrames i frames st
       = (let relativeScrollTop = frameOffset i effectiveHeight scrollableForTarget;
              requested = requestFrame pg (hideProgress (reportProgress onProgress (i + 1) totalFrames
                            (scrollTo st (targetOffsetTop + relativeScrollTop))))
          in case fst requested of
               Inl err \<Rightarrow> Some (Inl err, snd requested)
             | Inr response \<Rightarrow>
                 scrollCropLoop pg cropTarget onProgress targetOffsetTop effectiveHeight
                   scrollableForTarget totalFrames (i + 1)
                   (frames @ [\<lparr> fr_dataUrl = resp_dataUrl response,
                                 fr_cropRegion = cropRegionOf pg cropTarget (snd requested),
                                 fr_scrollTop = relativeScrollTop,
                                 fr_frameIndex = i \<rparr>])
                   (showProgress (snd requested)))"
  by (subst scrollCropLoop.simps) (simp add: assms Let_def del: One_nat_def)

lemma scrollCropLoop_stop:
  "\<not> countLess i totalFrames
   \<Longrightarrow> scrollCropLoop pg cropTarget onProgress targetOffsetTop effectiveHeight scrollableForTarget
         totalFrames i frames st = Some (Inr frames, st)"
  by (subst scrollCropLoop.simps) simp

lemma scrollCropLoop_returns:
  "\<exists>result. scrollCropLoop pg cropTarget onProgress targetOffsetTop effectiveHeight scrollableForTarget
               (Count n) i frames st = Some result"
proof (induction "nat (n - int i)" arbitrary: i frames st)
  case 0
  then have "\<not> countLess i (Count n)" by simp
  then show ?case by (simp add: scrollCropLoop_stop)
next
  case (Suc d)
  then have less: "countLess i (Count n)" and d: "d = nat (n - int (i + 1))" by simp_all
  let ?st3 = "hideProgress (reportProgress onProgress (i + 1) (Count n)
                (scrollTo st (targetOffsetTop + frameOffset i effectiveHeight scrollableForTarget)))"
  show ?case
  proof (cases "fst (requestFrame pg ?st3)")
    case (Inl e)
    then show ?thesis by (simp add: scrollCropLoop_unfold [OF less] Let_def del: One_nat_def)
  next
    case (Inr response)
    then show ?thesis
      using Suc.hyps(1) [OF d]
      by (simp add: scrollCropLoop_unfold [OF less] Let_def del: One_nat_def)
  qed
qed

lemma finallyBlock_fields:
  "st_scrollTop (finallyBlock st) = st_scrollTop st"
  "\<not> st_scrollbarsHidden (finallyBlock st)"
  "\<not> st_progressShown (finallyBlock st)"
  by (simp_all add: scroller_steps)

text \<open>
  The exit paths of the two captures: a capture that returns its frames ends at the scroll
  offset it started from, every capture that ends has the scrollbars and the progress
  indicator restored, and a capture with a finite frame count ends.
\<close>

lemma capture_exit_paths:
  assumes plan: "scrollCropPlan scrollContainer cropTarget
                   = (targetOffsetTop, effectiveHeight, scrollableForTarget, totalFrames)"
  shows "(\<forall>frames st'. captureWithScrollAndCrop pg scrollContainer cropTarget onProgress st
                          = Some (Inr frames, st')
            \<longrightarrow> st_scrollTop st' = st_scrollTop st)
       \<and> (\<forall>result st'. captureWithScrollAndCrop pg scrollContainer cropTarget onProgress st
                          = Some (result, st')
            \<longrightarrow> \<not> st_scrollbarsHidden st' \<and> \<not> st_progressShown st')
       \<and> (totalFrames \<noteq> Infinite
            \<longrightarrow> (\<exists>result st'. captureWithScrollAndCrop pg scrollContainer cropTarget onProgress st
                                = Some (result, st')))
       \<and> (\<forall>frames st'. captureFrames pg el onProgress st = Some (Inr frames, st')
            \<longrightarrow> st_scrollTop st' = st_scrollTop st)
       \<and> (\<forall>result st'. captureFrames pg el onProgress st = Some (result, st')
            \<longrightarrow> \<not> st_scrollbarsHidden st' \<and> \<not> st_progressShown st')"
proof -
  let ?loop = "scrollCropLoop pg cropTarget onProgress targetOffsetTop effectiveHeight
                 scrollableForTarget totalFrames 0 [] (scrollTo (hideScrollbars st) targetOffsetTop)"
  let ?capture = "captureWithScrollAndCrop pg scrollContainer cropTarget onProgress st"
  have capture: "?capture
       = (case ?loop of None \<Rightarrow> None
          | Some (Inl err, st3) \<Rightarrow> Some (Inl err, finallyBlock st3)
          | Some (Inr frames, st3) \<Rightarrow> Some (Inr frames, finallyBlock (scrollTo st3 (st_scrollTop st))))"
    by (simp add: captureWithScrollAndCrop_def plan Let_def)
  have success: "st_scrollTop st' = st_scrollTop st" if "?capture = Some (Inr frames, st')" for frames st'
    using that unfolding capture
    by (auto simp: finallyBlock_fields scrollTo_def split: option.splits sum.splits)
  have cleanup: "\<not> st_scrollbarsHidden st' \<and> \<not> st_progressShown st'"
    if "?capture = Some (result, st')" for result st'
    using that unfolding capture
    by (auto simp: finallyBlock_fields split: option.splits sum.splits)
  have returns: "\<exists>result st'. ?capture = Some (result, st')" if "totalFrames \<noteq> Infinite"
  proof -
    from that obtain n where n: "totalFrames = Count n" by (cases totalFrames) auto
    from scrollCropLoop_returns [of pg cropTarget onProgress targetOffsetTop effectiveHeight
           scrollableForTarget n 0 "[]" "scrollTo (hideScrollbars st) targetOffsetTop"]
    obtain result where "?loop = Some result" unfolding n by blast
    then show ?thesis unfolding capture by (auto split: prod.splits sum.splits)
  qed
  have initial: "fi_initialScrollTop (calculateFrames el st) = st_scrollTop st"
    by (simp add: calculateFrames_def Let_def)
  have success': "st_scrollTop st' = st_scrollTop st"
    if "captureFrames pg el onProgress st = Some (Inr frames, st')" for frames st'
    using that unfolding captureFrames_def Let_def initial
    by (auto simp: finallyBlock_fields scrollTo_def split: option.splits sum.splits)
  have cleanup': "\<not> st_scrollbarsHidden st' \<and> \<not> st_progressShown st'"
    if "captureFrames pg el onProgress st = Some (result, st')" for result st'
    using that unfolding captureFrames_def Let_def
    by (auto simp: finallyBlock_fields split: option.splits sum.splits)
  from success cleanup returns success' cleanup' show ?thesis by blast
qed

text \<open>The example captures, evaluated.\<close>

lemma quota_replies:
  "\<not> resp_success quotaReply" "rateLimited quotaReply"
  "\<not> resp_success otherReply" "\<not> rateLimited otherReply"
  "resp_success snapshotReply"
  by code_simp+

lemma example_plan: "scrollCropPlan exampleElement exampleElement = (0, 400, 500, Count 3)"
  by code_simp

lemma example_capture_success:
  "captureWithScrollAndCrop (examplePage alwaysSnapshot) exampleElement exampleElement False exampleState
     = Some (Inr [exampleCaptured 0 0, exampleCaptured 400 1, exampleCaptured 500 2],
             \<lparr> st_scrollTop = 120, st_scrollbarsHidden = False, st_progressShown = False,
               st_requests = 3, st_progress = [] \<rparr>)"
  by code_simp

lemma example_capture_retried:
  "captureWithScrollAndCrop (examplePage quotaTwice) exampleElement exampleElement False exampleState
     = Some (Inr [exampleCaptured 0 0, exampleCaptured 400 1, exampleCaptured 500 2],
             \<lparr> st_scrollTop = 120, st_scrollbarsHidden = False, st_progressShown = False,
               st_requests = 5, st_progress = [] \<rparr>)"
  by code_simp

lemma example_capture_exhausted:
  "captureWithScrollAndCrop (examplePage alwaysQuota) exampleElement exampleElement False exampleState
     = Some (Inl (Error ''This request exceeds the MAX_CAPTURE_VISIBLE_TAB_CALLS_PER_SECOND quota.''),
             \<lparr> st_scrollTop = 0, st_scrollbarsHidden = False, st_progressShown = False,
               st_requests = 3, st_progress = [] \<rparr>)"
  by code_simp

lemma example_capture_exhausted_later:
  "captureWithScrollAndCrop (examplePage quotaAfterFirst) exampleElement exampleElement False exampleState
     = Some (Inl (Error ''This request exceeds the MAX_CAPTURE_VISIBLE_TAB_CALLS_PER_SECOND quota.''),
             \<lparr> st_scrollTop = 400, st_scrollbarsHidden = False, st_progressShown = False,
               st_requests = 4, st_progress = [] \<rparr>)"
  by code_simp

lemma example_capture_quota_then_other:
  "captureWithScrollAndCrop (examplePage quotaThenOther) exampleElement exampleElement False exampleState
     = Some (Inl (Error ''No active tab''),
             \<lparr> st_scrollTop = 0, st_scrollbarsHidden = False, st_progressShown = False,
               st_requests = 2, st_progress = [] \<rparr>)"
  by code_simp

lemma example_capture_other:
  "captureWithScrollAndCrop (examplePage otherFailure) exampleElement exampleElement False exampleState
     = Some (Inl (Error ''No active tab''),
             \<lparr> st_scrollTop = 0, st_scrollbarsHidden = False, st_progressShown = False,
               st_requests = 1, st_progress = [] \<rparr>)"
  by code_simp

section \<open>The claims\<close>



text \<open>
  C9. \<^const>\<open>stitchFrames\<close> on the empty frame list throws
  \<^verbatim>\<open>Error('No frames to stitch')\<close> and produces no composite image.
\<close>

theorem stitchFrames_empty:
  "stitchFrames decode [] options = Inl (Error ''No frames to stitch'')
   \<and> (\<forall>composite. stitchFrames decode [] options \<noteq> Inr composite)"
  by (simp add: stitchFrames_def)

text \<open>
  C3. For every non-empty frame list and all options, the height of the composite that
  \<^const>\<open>stitchFrames\<close> returns is the sum of the cropped heights minus the sum of the
  overlaps of the frames \<open>i > 0\<close>; and when \<^verbatim>\<open>detectDuplicates\<close> is false, every
  overlap is 0 and the height is the sum of the cropped heights. A composite is returned
  whenever the rounded crop sizes are positive and \<^verbatim>\<open>maxOverlapHeight\<close> is not 0
  (otherwise a canvas call of the platform may throw, and there is no composite).
\<close>

theorem stitchFrames_height:
  assumes "frames \<noteq> []"
  shows "(\<forall>composite. stitchFrames decode frames options = Inr composite \<longrightarrow>
            (\<exists>croppedFrames overlaps.
               croppedFramesOf decode frames = Inr croppedFrames
             \<and> overlapsOf decode frames options = Inr overlaps
             \<and> length croppedFrames = length frames \<and> length overlaps = length frames
             \<and> out_height composite
                 = (\<Sum>i = 0..<length frames. cf_height (croppedFrames ! i))
                   - (\<Sum>i = 1..<length frames. overlaps ! i)
             \<and> (opt_detectDuplicates options = Some False \<longrightarrow>
                  (\<forall>i < length frames. overlaps ! i = 0)
                  \<and> out_height composite
                      = (\<Sum>i = 0..<length frames. cf_height (croppedFrames ! i)))))
       \<and> ((\<forall>f \<in> set frames. 0 < round (crop_width (fr_cropRegion f))
                             \<and> 0 < round (crop_height (fr_cropRegion f)))
           \<and> maxOverlapHeightOf options \<noteq> 0
          \<longrightarrow> (\<exists>composite. stitchFrames decode frames options = Inr composite))"
proof (intro conjI allI impI)
  fix composite
  assume stitched: "stitchFrames decode frames options = Inr composite"
  from stitchFrames_Inr [OF stitched] obtain cfs ovs where
    cfs: "croppedFramesOf decode frames = Inr cfs"
    and ovs: "overlapsOf decode frames options = Inr ovs"
    and h: "out_height composite = totalHeightOf cfs ovs"
    by blast
  note len = croppedFramesOf_Inr(1) [OF cfs]
  have len0: "0 < length cfs" using assms len by simp
  have comp: "computeOverlaps (detectDuplicatesOf options) (maxOverlapHeightOf options) cfs = Inr ovs"
    using ovs cfs by (simp add: overlapsOf_def)
  note ov = computeOverlaps_Inr [OF len0 comp]
  have height: "out_height composite
      = (\<Sum>i = 0..<length frames. cf_height (cfs ! i)) - (\<Sum>i = 1..<length frames. ovs ! i)"
    using totalHeightOf_sum [OF len0, of ovs] h len by simp
  have off: "\<forall>i < length frames. ovs ! i = 0" if "opt_detectDuplicates options = Some False"
  proof (intro allI impI)
    fix i assume i: "i < length frames"
    show "ovs ! i = 0"
    proof (cases "i = 0")
      case True
      with ov(2) show ?thesis by simp
    next
      case False
      with i len ov(3) that show ?thesis by (simp add: detectDuplicatesOf_def)
    qed
  qed
  have plain: "out_height composite = (\<Sum>i = 0..<length frames. cf_height (cfs ! i))"
    if "opt_detectDuplicates options = Some False"
  proof -
    have "(\<Sum>i = 1..<length frames. ovs ! i) = 0"
      using off [OF that] by (intro sum.neutral) simp
    with height show ?thesis by simp
  qed
  from cfs ovs len ov(1) height off plain
  show "\<exists>croppedFrames overlaps.
               croppedFramesOf decode frames = Inr croppedFrames
             \<and> overlapsOf decode frames options = Inr overlaps
             \<and> length croppedFrames = length frames \<and> length overlaps = length frames
             \<and> out_height composite
                 = (\<Sum>i = 0..<length frames. cf_height (croppedFrames ! i))
                   - (\<Sum>i = 1..<length frames. overlaps ! i)
             \<and> (opt_detectDuplicates options = Some False \<longrightarrow>
                  (\<forall>i < length frames. overlaps ! i = 0)
                  \<and> out_height composite
                      = (\<Sum>i = 0..<length frames. cf_height (croppedFrames ! i)))"
    by (intro exI [of _ cfs] exI [of _ ovs]) simp
next
  assume "(\<forall>f \<in> set frames. 0 < round (crop_width (fr_cropRegion f))
                             \<and> 0 < round (crop_height (fr_cropRegion f)))
          \<and> maxOverlapHeightOf options \<noteq> 0"
  then show "\<exists>composite. stitchFrames decode frames options = Inr composite"
    using stitchFrames_success [OF assms] by blast
qed

theorem stitchFrames_height_witness:
  "exampleFrames \<noteq> []
   \<and> opt_detectDuplicates (exampleOptions False) = Some False
   \<and> stitchFrames exampleDecode exampleFrames (exampleOptions True)
       = Inr \<lparr>out_width = 1, out_height = 3, out_draws = [(0, 2, 0), (1, 1, 2)]\<rparr>
   \<and> stitchFrames exampleDecode exampleFrames (exampleOptions False)
       = Inr \<lparr>out_width = 1, out_height = 4, out_draws = [(0, 2, 0), (0, 2, 2)]\<rparr>
   \<and> (\<exists>croppedFrames overlaps.
         croppedFramesOf exampleDecode exampleFrames = Inr croppedFrames
       \<and> overlapsOf exampleDecode exampleFrames (exampleOptions True) = Inr overlaps
       \<and> (3::int) = (\<Sum>i = 0..<length exampleFrames. cf_height (croppedFrames ! i))
                     - (\<Sum>i = 1..<length exampleFrames. overlaps ! i))
   \<and> map (\<lambda>f. 0 < round (crop_width (fr_cropRegion f)) \<and> 0 < round (crop_height (fr_cropRegion f)))
         exampleFrames = [True, True]
   \<and> maxOverlapHeightOf (exampleOptions True) \<noteq> 0
   \<and> overlapsOf exampleDecode exampleFrames (exampleOptions True) = Inr [0, 1]
   \<and> overlapsOf exampleDecode exampleFrames (exampleOptions False) = Inr [0, 0]"
proof -
  have off: "opt_detectDuplicates (exampleOptions False) = Some False"
    by (simp add: exampleOptions_def)
  have pos: "map (\<lambda>f. 0 < round (crop_width (fr_cropRegion f)) \<and> 0 < round (crop_height (fr_cropRegion f)))
         exampleFrames = [True, True]"
    by (simp add: exampleFrames_def exampleFrame_def exampleCrop_def)
  have m: "maxOverlapHeightOf (exampleOptions True) \<noteq> 0"
    by (simp add: maxOverlapHeightOf_def exampleOptions_def)
  from stitchFrames_height [OF example_frames_length(2), of exampleDecode "exampleOptions True"]
       example_stitch_detect
  have a: "\<exists>croppedFrames overlaps.
         croppedFramesOf exampleDecode exampleFrames = Inr croppedFrames
       \<and> overlapsOf exampleDecode exampleFrames (exampleOptions True) = Inr overlaps
       \<and> (3::int) = (\<Sum>i = 0..<length exampleFrames. cf_height (croppedFrames ! i))
                     - (\<Sum>i = 1..<length exampleFrames. overlaps ! i)"
    by fastforce
  from a off pos m example_frames_length(2) example_stitch_detect example_stitch_plain
       example_overlaps_detect example_overlaps_plain
  show ?thesis by blast
qed

text \<open>
  C7. For valid options (\<^verbatim>\<open>maxOverlapHeight > 0\<close>), every sequence of cropped frames
  and every index \<open>i > 0\<close>, the overlap computed for frame \<open>i\<close> lies between 0 and the
  minimum of \<^verbatim>\<open>maxOverlapHeight\<close> and the heights of the frames \<open>i - 1\<close> and \<open>i\<close>.
\<close>

theorem overlap_bounds:
  assumes "0 < maxOverlapHeightOf options"
    and "croppedFramesOf decode frames = Inr croppedFrames"
    and "overlapsOf decode frames options = Inr overlaps"
    and "0 < i" and "i < length frames"
  shows "0 \<le> overlaps ! i
       \<and> overlaps ! i \<le> min (maxOverlapHeightOf options)
                            (min (cf_height (croppedFrames ! (i - 1))) (cf_height (croppedFrames ! i)))"
proof -
  let ?m = "maxOverlapHeightOf options"
  note len = croppedFramesOf_Inr(1) [OF assms(2)]
  have crop: "cropFrame decode (frames ! j) = Inr (croppedFrames ! j)" if "j < length frames" for j
    using croppedFramesOf_Inr(2) [OF assms(2)] that by simp
  have "i - 1 < length frames" using assms(4,5) by simp
  from cropFrame_Inr(4) [OF crop [OF this]] cropFrame_Inr(4) [OF crop [OF assms(5)]] assms(1)
  have m: "0 \<le> min ?m (min (cf_height (croppedFrames ! (i - 1))) (cf_height (croppedFrames ! i)))"
    by simp
  have comp: "computeOverlaps (detectDuplicatesOf options) ?m croppedFrames = Inr overlaps"
    using assms(2,3) by (simp add: overlapsOf_def)
  have len0: "0 < length croppedFrames" using assms(5) len by auto
  show ?thesis
  proof (cases "detectDuplicatesOf options")
    case True
    with computeOverlaps_Inr(3) [OF len0 comp] assms(4,5) len
    have "pairOverlap ?m (croppedFrames ! (i - 1)) (croppedFrames ! i) = Inr (overlaps ! i)"
      by simp
    from pairOverlap_bounds [OF this] m show ?thesis by simp
  next
    case False
    with computeOverlaps_Inr(3) [OF len0 comp] assms(4,5) len have "overlaps ! i = 0" by simp
    with m show ?thesis by simp
  qed
qed

theorem overlap_bounds_witness:
  "0 < maxOverlapHeightOf (exampleOptions True)
   \<and> croppedFramesOf exampleDecode exampleFrames
       = Inr [\<lparr>cf_canvas = exampleTop, cf_width = 1, cf_height = 2\<rparr>,
              \<lparr>cf_canvas = exampleBottom, cf_width = 1, cf_height = 2\<rparr>]
   \<and> overlapsOf exampleDecode exampleFrames (exampleOptions True) = Inr [0, 1]
   \<and> (0::nat) < 1 \<and> 1 < length exampleFrames
   \<and> 0 \<le> [0, 1::int] ! 1
   \<and> [0, 1::int] ! 1
       \<le> min (maxOverlapHeightOf (exampleOptions True))
              (min (cf_height ([\<lparr>cf_canvas = exampleTop, cf_width = 1, cf_height = 2\<rparr>,
                                \<lparr>cf_canvas = exampleBottom, cf_width = 1, cf_height = 2\<rparr>] ! (1 - 1)))
                   (cf_height ([\<lparr>cf_canvas = exampleTop, cf_width = 1, cf_height = 2\<rparr>,
                                \<lparr>cf_canvas = exampleBottom, cf_width = 1, cf_height = 2\<rparr>] ! 1)))"
proof -
  have a: "0 < maxOverlapHeightOf (exampleOptions True)"
    by (simp add: maxOverlapHeightOf_def exampleOptions_def)
  have c: "(0::nat) < 1" by simp
  have d: "1 < length exampleFrames" by (simp add: example_frames_length)
  from overlap_bounds [OF a example_cropped example_overlaps_detect c d]
       a example_cropped example_overlaps_detect c d
  show ?thesis by blast
qed

text \<open>
  C4. Two neighbouring cropped frames of equal width \<open>w > 0\<close>, with
  \<open>h = min(maxOverlapHeight, previous height, current height) \<ge> 1\<close> the full search
  window: when the last \<open>h\<close> rows of the previous frame and the first \<open>h\<close> rows of the
  current frame agree on the channels R, G and B, the overlap detected for the pair is
  exactly \<open>h\<close>, the first candidate of the descending search.
\<close>

theorem identical_window_overlap:
  assumes width: "cf_width prevFrame = w" "cf_width currFrame = w" "0 < w"
    and window: "h = min maxOverlapHeight (min (cf_height prevFrame) (cf_height currFrame))"
                "1 \<le> h"
    and same: "\<forall>row < nat h. \<forall>col < nat w. \<forall>ch < 3.
                 rasterByte (cf_canvas prevFrame) (cf_height prevFrame - h + int row) (int col) ch
               = rasterByte (cf_canvas currFrame) (int row) (int col) ch"
  shows "pairOverlap maxOverlapHeight prevFrame currFrame = Inr h"
proof -
  let ?p = "readRegion (cf_canvas prevFrame) 0 (cf_height prevFrame - h) (nat w) (nat h)"
  let ?c = "readRegion (cf_canvas currFrame) 0 0 (nat w) (nat h)"
  have all: "\<forall>row < nat h. \<forall>s < sampleCount ?p. sampleMatches ?p ?c h row s"
    using window_sampleMatches [OF window(2) same] by blast
  have counts: "rowLoop ?p ?c h = (nat h * sampleCount ?p, nat h * sampleCount ?p)"
    using all by (rule rowLoop_all_match)
  have "0 < sampleCount ?p" using width(3) by (simp add: sampleCount_def readRegion_width)
  with window(2) have "0 < nat h * sampleCount ?p" by simp
  then have "exceedsThreshold (fst (rowLoop ?p ?c h)) (snd (rowLoop ?p ?c h))"
    unfolding counts by (simp add: exceedsThreshold_all)
  with window(2) have found: "searchOverlap ?p ?c h = h" by (rule searchOverlap_first)
  have prevData: "getImageData (cf_canvas prevFrame) 0 (cf_height prevFrame - h) w h = Inr ?p"
    and currData: "getImageData (cf_canvas currFrame) 0 0 w h = Inr ?c"
    using width(3) window(2) by (simp_all add: getImageData_def)
  show ?thesis
    unfolding pairOverlap_def Let_def window(1) [symmetric] width
    by (simp add: prevData currData detectOverlap_def found)
qed

theorem identical_window_overlap_witness:
  "cf_width \<lparr>cf_canvas = exampleTop, cf_width = 1, cf_height = 2\<rparr> = 1
   \<and> cf_width \<lparr>cf_canvas = exampleBottom, cf_width = 1, cf_height = 2\<rparr> = 1
   \<and> (0::int) < 1
   \<and> (1::int) = min 1 (min (cf_height \<lparr>cf_canvas = exampleTop, cf_width = 1, cf_height = 2\<rparr>)
                            (cf_height \<lparr>cf_canvas = exampleBottom, cf_width = 1, cf_height = 2\<rparr>))
   \<and> (1::int) \<le> 1
   \<and> map (rasterByte exampleTop (2 - 1 + 0) 0) [0, 1, 2] = [40, 50, 60]
   \<and> map (rasterByte exampleBottom 0 0) [0, 1, 2] = [40, 50, 60]
   \<and> pairOverlap 1 \<lparr>cf_canvas = exampleTop, cf_width = 1, cf_height = 2\<rparr>
                     \<lparr>cf_canvas = exampleBottom, cf_width = 1, cf_height = 2\<rparr> = Inr 1"
proof -
  let ?p = "\<lparr>cf_canvas = exampleTop, cf_width = 1, cf_height = 2\<rparr>"
  let ?c = "\<lparr>cf_canvas = exampleBottom, cf_width = 1, cf_height = 2\<rparr>"
  have a: "cf_width ?p = 1" and a': "cf_width ?c = 1" by simp_all
  have b: "(0::int) < 1" by simp
  have c: "(1::int) = min 1 (min (cf_height ?p) (cf_height ?c))" by simp
  have d: "(1::int) \<le> 1" by simp
  have e: "\<forall>row < nat 1. \<forall>col < nat 1. \<forall>ch < 3.
             rasterByte (cf_canvas ?p) (cf_height ?p - 1 + int row) (int col) ch
           = rasterByte (cf_canvas ?c) (int row) (int col) ch"
    by (auto simp: rasterByte_def exampleTop_def exampleBottom_def less_Suc_eq numeral_3_eq_3)
  have e': "map (rasterByte exampleTop (2 - 1 + 0) 0) [0, 1, 2] = [40, 50, 60]"
           "map (rasterByte exampleBottom 0 0) [0, 1, 2] = [40, 50, 60]"
    by (simp_all add: rasterByte_def exampleTop_def exampleBottom_def)
  from identical_window_overlap [OF a a' b c d e] a a' b c d e' show ?thesis by blast
qed

text \<open>
  C5, as stated: \<^const>\<open>stitchFrames\<close> fails whenever a cropped width differs from the
  first one. It does not: the example frames have cropped widths 1 and 2 and are stitched
  into a composite of width 1, with and without duplicate detection.
\<close>

theorem width_mismatch_counterexample:
  "croppedFramesOf exampleDecode exampleMixedFrames
     = Inr [\<lparr>cf_canvas = exampleTop, cf_width = 1, cf_height = 2\<rparr>,
            \<lparr>cf_canvas = exampleWide, cf_width = 2, cf_height = 2\<rparr>]
   \<and> cf_width \<lparr>cf_canvas = exampleWide, cf_width = 2, cf_height = 2\<rparr>
       \<noteq> cf_width \<lparr>cf_canvas = exampleTop, cf_width = 1, cf_height = 2\<rparr>
   \<and> stitchFrames exampleDecode exampleMixedFrames (exampleOptions True)
       = Inr \<lparr>out_width = 1, out_height = 4, out_draws = [(0, 2, 0), (0, 2, 2)]\<rparr>
   \<and> stitchFrames exampleDecode exampleMixedFrames (exampleOptions False)
       = Inr \<lparr>out_width = 1, out_height = 4, out_draws = [(0, 2, 0), (0, 2, 2)]\<rparr>"
  by code_simp

text \<open>
  C5, amended: \<^const>\<open>stitchFrames\<close> does not compare cropped widths and has no error for
  a width mismatch. What it throws is its error for an empty frame list or an error of a
  canvas call (\<^verbatim>\<open>TypeError\<close>, \<^verbatim>\<open>IndexSizeError\<close>, \<^verbatim>\<open>InvalidStateError\<close>),
  and a composite it returns has the cropped width of the first frame, whatever the
  cropped widths of the other frames.
\<close>

theorem stitchFrames_no_width_check:
  "(\<forall>err. stitchFrames decode frames options = Inl err \<longrightarrow>
       err = Error ''No frames to stitch'' \<and> frames = []
     \<or> err = TypeError \<or> err = IndexSizeError \<or> err = InvalidStateError)
   \<and> (\<forall>composite. stitchFrames decode frames options = Inr composite \<longrightarrow>
         (\<exists>croppedFrames. croppedFramesOf decode frames = Inr croppedFrames
            \<and> out_width composite = cf_width (croppedFrames ! 0)
            \<and> out_width composite = round (crop_width (fr_cropRegion (frames ! 0)))))"
proof (intro conjI allI impI)
  fix err assume "stitchFrames decode frames options = Inl err"
  then show "err = Error ''No frames to stitch'' \<and> frames = []
     \<or> err = TypeError \<or> err = IndexSizeError \<or> err = InvalidStateError"
    by (rule stitchFrames_Inl)
next
  fix composite assume "stitchFrames decode frames options = Inr composite"
  from stitchFrames_Inr [OF this] obtain cfs where ne: "frames \<noteq> []"
    and cfs: "croppedFramesOf decode frames = Inr cfs"
    and w: "out_width composite = round (crop_width (fr_cropRegion (frames ! 0)))"
    by blast
  from croppedFramesOf_Inr(2) [OF cfs] ne have "cropFrame decode (frames ! 0) = Inr (cfs ! 0)"
    by simp
  from cropFrame_Inr(1) [OF this] cfs w
  show "\<exists>croppedFrames. croppedFramesOf decode frames = Inr croppedFrames
            \<and> out_width composite = cf_width (croppedFrames ! 0)
            \<and> out_width composite = round (crop_width (fr_cropRegion (frames ! 0)))"
    by simp
qed

theorem stitchFrames_no_width_check_witness:
  "stitchFrames exampleDecode exampleMixedFrames (exampleOptions True)
     = Inr \<lparr>out_width = 1, out_height = 4, out_draws = [(0, 2, 0), (0, 2, 2)]\<rparr>
   \<and> croppedFramesOf exampleDecode exampleMixedFrames
       = Inr [\<lparr>cf_canvas = exampleTop, cf_width = 1, cf_height = 2\<rparr>,
              \<lparr>cf_canvas = exampleWide, cf_width = 2, cf_height = 2\<rparr>]
   \<and> (\<exists>croppedFrames. croppedFramesOf exampleDecode exampleMixedFrames = Inr croppedFrames
         \<and> out_width \<lparr>out_width = 1, out_height = 4, out_draws = [(0, 2, 0), (0, 2, 2)]\<rparr>
             = cf_width (croppedFrames ! 0))
   \<and> stitchFrames exampleDecode exampleNegativeFrames (exampleOptions True) = Inl TypeError
   \<and> (TypeError = Error ''No frames to stitch'' \<and> exampleNegativeFrames = []
        \<or> TypeError = TypeError \<or> TypeError = IndexSizeError \<or> TypeError = InvalidStateError)"
proof -
  note t = stitchFrames_no_width_check [of exampleDecode exampleMixedFrames "exampleOptions True"]
  note u = stitchFrames_no_width_check [of exampleDecode exampleNegativeFrames "exampleOptions True"]
  from t example_mixed_stitch
  have a: "\<exists>croppedFrames. croppedFramesOf exampleDecode exampleMixedFrames = Inr croppedFrames
         \<and> out_width \<lparr>out_width = 1, out_height = 4, out_draws = [(0, 2, 0), (0, 2, 2)]\<rparr>
             = cf_width (croppedFrames ! 0)"
    by blast
  from u example_failing_stitches(1)
  have b: "TypeError = Error ''No frames to stitch'' \<and> exampleNegativeFrames = []
        \<or> TypeError = TypeError \<or> TypeError = IndexSizeError \<or> TypeError = InvalidStateError"
    by blast
  from a b example_mixed_stitch example_mixed_cropped example_failing_stitches(1)
  show ?thesis by blast
qed

text \<open>
  C1, as stated: for \<^verbatim>\<open>scrollHeight = 1000\<close> and \<^verbatim>\<open>clientHeight = 500\<close> the
  scheduler takes 4 frames at the offsets 0, 400, 800 and 1000. It does not: the frame
  count is computed from \<open>scrollableHeight = 1000 - 500\<close>, which gives 3 frames at the
  offsets 0, 400 and 500.
\<close>

theorem scheduler_scenario_counterexample:
  "el_scrollHeight exampleElement = 1000 \<and> el_clientHeight exampleElement = 500
   \<and> fi_totalFrames (calculateFrames exampleElement exampleState) = Count 3
   \<and> fi_totalFrames (calculateFrames exampleElement exampleState) \<noteq> Count 4
   \<and> frameOffsets (captureFrames (examplePage alwaysSnapshot) exampleElement False exampleState)
       = Some [0, 400, 500]
   \<and> frameOffsets (captureFrames (examplePage alwaysSnapshot) exampleElement False exampleState)
       \<noteq> Some [0, 400, 800, 1000]"
  by code_simp

text \<open>
  C1, amended: for \<^verbatim>\<open>scrollHeight = 1000\<close> and \<^verbatim>\<open>clientHeight = 500\<close> the step is
  \<open>500 * 0.8 = 400\<close>, the scrollable height is 500, the frame count is
  \<open>\<lceil>500 / 400\<rceil> + 1 = 3\<close>, and a capture whose three snapshot requests succeed visits
  the offsets 0, 400 and 500 in that order (the offset of frame \<open>i\<close> is 0 for \<open>i = 0\<close> and
  \<open>min (i * step) scrollableHeight\<close> otherwise). In double arithmetic these values are the
  same: \<^verbatim>\<open>500 * (1 - 0.2)\<close> is \<^verbatim>\<open>400\<close> and \<^verbatim>\<open>500 / 400\<close> is \<^verbatim>\<open>1.25\<close>.
\<close>

theorem scheduler_scenario:
  assumes "el_scrollHeight el = 1000" and "el_clientHeight el = 500"
    and "\<forall>k < 3. resp_success (pg_captureFrame pg (st_requests st + k))"
  shows "fi_frameHeight (calculateFrames el st) = 400
       \<and> fi_scrollableHeight (calculateFrames el st) = 500
       \<and> fi_totalFrames (calculateFrames el st) = Count 3
       \<and> map (\<lambda>i. frameOffset i 400 500) [0..<3] = [0, 400, 500]
       \<and> frameOffsets (captureFrames pg el onProgress st) = Some [0, 400, 500]"
proof -
  note fi = calculateFrames_scenario [OF assms(1,2)]
  have offs: "map (\<lambda>i. frameOffset i 400 500) [0..<3] = [0, 400, 500]"
    by code_simp
  let ?fi = "calculateFrames el st"
  let ?st2 = "scrollTo (hideScrollbars st) 0"
  have total: "fi_totalFrames ?fi = Count (int 3)" by (simp add: fi)
  have ok: "\<forall>k < 3 - 0. resp_success (pg_captureFrame pg (st_requests ?st2 + k))"
    using assms(3) by (simp add: scroller_steps)
  from captureFramesLoop_run [OF total ok, of el onProgress "[]"]
  obtain new st' where
    run: "captureFramesLoop pg el onProgress ?fi 0 [] ?st2 = Some (Inr new, st')"
    and new: "map fr_scrollTop new = map (\<lambda>j. frameOffset j 400 500) [0..<3]"
    by (auto simp: fi)
  have "frameOffsets (captureFrames pg el onProgress st) = Some [0, 400, 500]"
    unfolding captureFrames_def Let_def run using new offs by (simp add: frameOffsets_def)
  with offs show ?thesis by (simp add: fi)
qed

theorem scheduler_scenario_witness:
  "el_scrollHeight exampleElement = 1000 \<and> el_clientHeight exampleElement = 500
   \<and> resp_success (pg_captureFrame (examplePage alwaysSnapshot) (st_requests exampleState + 0))
   \<and> resp_success (pg_captureFrame (examplePage alwaysSnapshot) (st_requests exampleState + 1))
   \<and> resp_success (pg_captureFrame (examplePage alwaysSnapshot) (st_requests exampleState + 2))
   \<and> fi_totalFrames (calculateFrames exampleElement exampleState) = Count 3
   \<and> frameOffsets (captureFrames (examplePage alwaysSnapshot) exampleElement True exampleState)
       = Some [0, 400, 500]"
proof -
  have a: "el_scrollHeight exampleElement = 1000" and b: "el_clientHeight exampleElement = 500"
    by (simp_all add: exampleElement_def)
  have c: "\<forall>k < 3. resp_success (pg_captureFrame (examplePage alwaysSnapshot)
                                     (st_requests exampleState + k))"
    by (simp add: examplePage_def alwaysSnapshot_def snapshotReply_def)
  from scheduler_scenario [OF a b c, of True] a b
       c [rule_format, of 0] c [rule_format, of 1] c [rule_format, of 2]
  show ?thesis by simp
qed

text \<open>
  C6, as stated: a target rectangle that does not meet the viewport gives a crop rectangle
  of zero area. It does not: a rectangle to the left of the viewport gives a crop of width
  \<open>-200\<close> and height 80.
\<close>

theorem offscreen_crop_counterexample:
  "min 800 (rect_right exampleOffscreenRect) < max 0 (rect_left exampleOffscreenRect)
   \<and> calculateCropRegion exampleOffscreenRect 800 600 2
       = \<lparr> crop_x = 0, crop_y = 20, crop_width = - 200, crop_height = 80,
           crop_raw = \<lparr> raw_left = 0, raw_top = 10, raw_width = - 100, raw_height = 40 \<rparr> \<rparr>
   \<and> crop_width (calculateCropRegion exampleOffscreenRect 800 600 2)
       * crop_height (calculateCropRegion exampleOffscreenRect 800 600 2) \<noteq> 0"
  by code_simp

text \<open>
  C6, amended: \<^const>\<open>calculateCropRegion\<close> has no case for an empty intersection. With
  \<open>d\<close> the device pixel ratio (1 when the ratio is 0) it always returns
  \<open>x = max(0, left) * d\<close>, \<open>y = max(0, top) * d\<close>,
  \<open>width = (min(viewportWidth, right) - max(0, left)) * d\<close> and
  \<open>height = (min(viewportHeight, bottom) - max(0, top)) * d\<close>. For \<open>d > 0\<close>: when the target
  meets the viewport in a rectangle of positive width and height, that is the intersected
  rectangle scaled by \<open>d\<close>, of positive width and height; when the intersection is empty,
  the width or the height returned is zero or negative.
\<close>

theorem calculateCropRegion_geometry:
  fixes r :: rect and viewportWidth viewportHeight devicePixelRatio :: num
  defines "dpr \<equiv> (if devicePixelRatio = 0 then 1 else devicePixelRatio)"
    and "crop \<equiv> calculateCropRegion r viewportWidth viewportHeight devicePixelRatio"
  shows "crop_x crop = max 0 (rect_left r) * dpr
       \<and> crop_y crop = max 0 (rect_top r) * dpr
       \<and> crop_width crop = (min viewportWidth (rect_right r) - max 0 (rect_left r)) * dpr
       \<and> crop_height crop = (min viewportHeight (rect_bottom r) - max 0 (rect_top r)) * dpr
       \<and> (0 < dpr \<and> max 0 (rect_left r) < min viewportWidth (rect_right r)
              \<and> max 0 (rect_top r) < min viewportHeight (rect_bottom r)
            \<longrightarrow> 0 < crop_width crop \<and> 0 < crop_height crop)
       \<and> (0 < dpr \<and> (min viewportWidth (rect_right r) \<le> max 0 (rect_left r)
                       \<or> min viewportHeight (rect_bottom r) \<le> max 0 (rect_top r))
            \<longrightarrow> crop_width crop \<le> 0 \<or> crop_height crop \<le> 0)"
  unfolding crop_def dpr_def calculateCropRegion_def Let_def
  by (auto simp: mult_le_0_iff zero_less_mult_iff)

theorem calculateCropRegion_geometry_witness:
  "(0::num) < (if (2::num) = 0 then 1 else 2)
   \<and> max 0 (rect_left exampleRect) < min 800 (rect_right exampleRect)
   \<and> max 0 (rect_top exampleRect) < min 600 (rect_bottom exampleRect)
   \<and> crop_x (calculateCropRegion exampleRect 800 600 2) = 100 * 2
   \<and> crop_y (calculateCropRegion exampleRect 800 600 2) = 50 * 2
   \<and> crop_width (calculateCropRegion exampleRect 800 600 2) = (400 - 100) * 2
   \<and> crop_height (calculateCropRegion exampleRect 800 600 2) = (550 - 50) * 2
   \<and> min 800 (rect_right exampleOffscreenRect) \<le> max 0 (rect_left exampleOffscreenRect)
   \<and> (crop_width (calculateCropRegion exampleOffscreenRect 800 600 2) \<le> 0
        \<or> crop_height (calculateCropRegion exampleOffscreenRect 800 600 2) \<le> 0)"
  using calculateCropRegion_geometry [of exampleRect 800 600 2]
        calculateCropRegion_geometry [of exampleOffscreenRect 800 600 2]
  by (simp add: exampleRect_def exampleOffscreenRect_def)

text \<open>
  C8. In the frame loop of \<^const>\<open>captureWithScrollAndCrop\<close>, for every frame \<open>i\<close> that the
  loop starts, with \<open>n\<close> requests sent before: if the replies \<open>n\<close>, \<open>n + 1\<close> and
  \<open>n + 2\<close> are rate limits, the loop ends with the thrown rate-limit error after exactly
  three requests; if the reply \<open>n + j\<close> with \<open>j < 3\<close> is a success and the replies before
  it are rate limits, frame \<open>i\<close> is appended with that snapshot and the loop goes on with
  frame \<open>i + 1\<close>; if the reply \<open>n + j\<close> with \<open>j < 3\<close> is a failure that is not a rate
  limit and the replies before it are rate limits, the loop ends with that error after
  \<open>j + 1\<close> requests, without another request. No frame takes more than three requests.
\<close>

theorem snapshot_retry_policy:
  fixes pg :: page and st :: scrollerState
  defines "n \<equiv> st_requests st"
  assumes "countLess i totalFrames"
  shows "((\<forall>k < 3. \<not> resp_success (pg_captureFrame pg (n + k)) \<and> rateLimited (pg_captureFrame pg (n + k)))
          \<longrightarrow> (\<exists>m st'. scrollCropLoop pg cropTarget onProgress targetOffsetTop effectiveHeight
                           scrollableForTarget totalFrames i frames st = Some (Inl (Error m), st')
                        \<and> includesStr m ''quota'' \<and> st_requests st' = n + 3))
       \<and> (\<forall>j < 3. (\<forall>k < j. \<not> resp_success (pg_captureFrame pg (n + k))
                              \<and> rateLimited (pg_captureFrame pg (n + k)))
                   \<and> resp_success (pg_captureFrame pg (n + j))
          \<longrightarrow> (\<exists>f st'. scrollCropLoop pg cropTarget onProgress targetOffsetTop effectiveHeight
                           scrollableForTarget totalFrames i frames st
                         = scrollCropLoop pg cropTarget onProgress targetOffsetTop effectiveHeight
                             scrollableForTarget totalFrames (i + 1) (frames @ [f]) st'
                        \<and> fr_dataUrl f = resp_dataUrl (pg_captureFrame pg (n + j))
                        \<and> fr_frameIndex f = i \<and> st_requests st' = n + j + 1))
       \<and> (\<forall>j < 3. (\<forall>k < j. \<not> resp_success (pg_captureFrame pg (n + k))
                              \<and> rateLimited (pg_captureFrame pg (n + k)))
                   \<and> \<not> resp_success (pg_captureFrame pg (n + j))
                   \<and> \<not> rateLimited (pg_captureFrame pg (n + j))
          \<longrightarrow> (\<exists>st'. scrollCropLoop pg cropTarget onProgress targetOffsetTop effectiveHeight
                         scrollableForTarget totalFrames i frames st
                       = Some (Inl (Error (errorOr (resp_error (pg_captureFrame pg (n + j)))
                                                   ''Failed to capture frame'')), st')
                      \<and> st_requests st' = n + j + 1))
       \<and> st_requests (snd (requestFrame pg st)) \<le> n + 3"
proof (intro conjI impI allI)
  let ?st3 = "hideProgress (reportProgress onProgress (i + 1) totalFrames
                (scrollTo st (targetOffsetTop + frameOffset i effectiveHeight scrollableForTarget)))"
  have n3: "st_requests ?st3 = n" unfolding n_def by (rule before_request)
  {
    assume lim: "\<forall>k < 3. \<not> resp_success (pg_captureFrame pg (n + k))
                        \<and> rateLimited (pg_captureFrame pg (n + k))"
    from lim [rule_format, of 2] have "rateLimited (pg_captureFrame pg (n + 2))" by simp
    from rateLimited_message [OF this, of "''Failed to capture frame after retries''"]
    obtain m where m: "includesStr m ''quota''"
      "errorOr (resp_error (pg_captureFrame pg (n + 2))) ''Failed to capture frame after retries'' = m"
      by blast
    have "requestFrame pg ?st3 = (Inl (Error m), ?st3\<lparr>st_requests := n + 3\<rparr>)"
      using requestFrame_exhausted [of pg ?st3] lim m(2) unfolding n3 by simp
    then have "scrollCropLoop pg cropTarget onProgress targetOffsetTop effectiveHeight
                 scrollableForTarget totalFrames i frames st
               = Some (Inl (Error m), ?st3\<lparr>st_requests := n + 3\<rparr>)"
      by (simp add: scrollCropLoop_unfold [OF assms(2)] Let_def del: One_nat_def)
    with m(1) show "\<exists>m st'. scrollCropLoop pg cropTarget onProgress targetOffsetTop effectiveHeight
                           scrollableForTarget totalFrames i frames st = Some (Inl (Error m), st')
                        \<and> includesStr m ''quota'' \<and> st_requests st' = n + 3"
      by (intro exI [of _ m] exI [of _ "?st3\<lparr>st_requests := n + 3\<rparr>"]) simp
  }
  {
    fix j
    assume j: "j < 3"
      and ok: "(\<forall>k < j. \<not> resp_success (pg_captureFrame pg (n + k))
                        \<and> rateLimited (pg_captureFrame pg (n + k)))
               \<and> resp_success (pg_captureFrame pg (n + j))"
    have "requestFrame pg ?st3 = (Inr (pg_captureFrame pg (n + j)), ?st3\<lparr>st_requests := n + j + 1\<rparr>)"
      using requestFrame_success [of j pg ?st3] j ok unfolding n3 by simp
    then have "scrollCropLoop pg cropTarget onProgress targetOffsetTop effectiveHeight
                 scrollableForTarget totalFrames i frames st
               = scrollCropLoop pg cropTarget onProgress targetOffsetTop effectiveHeight
                   scrollableForTarget totalFrames (i + 1)
                   (frames @ [\<lparr> fr_dataUrl = resp_dataUrl (pg_captureFrame pg (n + j)),
                                 fr_cropRegion = cropRegionOf pg cropTarget (?st3\<lparr>st_requests := n + j + 1\<rparr>),
                                 fr_scrollTop = frameOffset i effectiveHeight scrollableForTarget,
                                 fr_frameIndex = i \<rparr>])
                   (showProgress (?st3\<lparr>st_requests := n + j + 1\<rparr>))"
      by (simp add: scrollCropLoop_unfold [OF assms(2)] Let_def del: One_nat_def)
    then show "\<exists>f st'. scrollCropLoop pg cropTarget onProgress targetOffsetTop effectiveHeight
                           scrollableForTarget totalFrames i frames st
                         = scrollCropLoop pg cropTarget onProgress targetOffsetTop effectiveHeight
                             scrollableForTarget totalFrames (i + 1) (frames @ [f]) st'
                        \<and> fr_dataUrl f = resp_dataUrl (pg_captureFrame pg (n + j))
                        \<and> fr_frameIndex f = i \<and> st_requests st' = n + j + 1"
      by (intro exI [of _ "\<lparr> fr_dataUrl = resp_dataUrl (pg_captureFrame pg (n + j)),
                                 fr_cropRegion = cropRegionOf pg cropTarget (?st3\<lparr>st_requests := n + j + 1\<rparr>),
                                 fr_scrollTop = frameOffset i effectiveHeight scrollableForTarget,
                                 fr_frameIndex = i \<rparr>"]
                    exI [of _ "showProgress (?st3\<lparr>st_requests := n + j + 1\<rparr>)"])
         (simp add: showProgress_def)
  }
  {
    fix j
    assume j: "j < 3"
      and other: "(\<forall>k < j. \<not> resp_success (pg_captureFrame pg (n + k))
                           \<and> rateLimited (pg_captureFrame pg (n + k)))
                  \<and> \<not> resp_success (pg_captureFrame pg (n + j))
                  \<and> \<not> rateLimited (pg_captureFrame pg (n + j))"
    have "requestFrame pg ?st3
            = (Inl (Error (errorOr (resp_error (pg_captureFrame pg (n + j))) ''Failed to capture frame'')),
               ?st3\<lparr>st_requests := n + j + 1\<rparr>)"
      using requestFrame_other [of j pg ?st3] j other unfolding n3 by simp
    then have "scrollCropLoop pg cropTarget onProgress targetOffsetTop effectiveHeight
                 scrollableForTarget totalFrames i frames st
               = Some (Inl (Error (errorOr (resp_error (pg_captureFrame pg (n + j))) ''Failed to capture frame'')),
                       ?st3\<lparr>st_requests := n + j + 1\<rparr>)"
      by (simp add: scrollCropLoop_unfold [OF assms(2)] Let_def del: One_nat_def)
    then show "\<exists>st'. scrollCropLoop pg cropTarget onProgress targetOffsetTop effectiveHeight
                         scrollableForTarget totalFrames i frames st
                       = Some (Inl (Error (errorOr (resp_error (pg_captureFrame pg (n + j)))
                                                   ''Failed to capture frame'')), st')
                      \<and> st_requests st' = n + j + 1"
      by (intro exI [of _ "?st3\<lparr>st_requests := n + j + 1\<rparr>"]) simp
  }
  show "st_requests (snd (requestFrame pg st)) \<le> n + 3"
    using requestFrame_state [of pg st] unfolding n_def by auto
qed

theorem snapshot_retry_policy_witness:
  "countLess 0 (Count 3)
   \<and> map (\<lambda>k. \<not> resp_success (pg_captureFrame (examplePage alwaysQuota) (st_requests exampleState + k)) \<and> rateLimited (pg_captureFrame (examplePage alwaysQuota) (st_requests exampleState + k))) [0, 1, 2] = [True, True, True]
   \<and> (\<exists>m st'. scrollCropLoop (examplePage alwaysQuota) exampleElement False 0 400 500 (Count 3) 0 [] exampleState = Some (Inl (Error m), st')
        \<and> includesStr m ''quota'' \<and> st_requests st' = st_requests exampleState + 3)
   \<and> (2::nat) < 3
   \<and> map (\<lambda>k. \<not> resp_success (pg_captureFrame (examplePage quotaTwice) (st_requests exampleState + k)) \<and> rateLimited (pg_captureFrame (examplePage quotaTwice) (st_requests exampleState + k))) [0, 1] = [True, True]
   \<and> resp_success (pg_captureFrame (examplePage quotaTwice) (st_requests exampleState + 2))
   \<and> (\<exists>f st'. scrollCropLoop (examplePage quotaTwice) exampleElement False 0 400 500 (Count 3) 0 [] exampleState
          = scrollCropLoop (examplePage quotaTwice) exampleElement False 0 400 500 (Count 3) (0 + 1) ([] @ [f]) st'
        \<and> fr_dataUrl f = resp_dataUrl (pg_captureFrame (examplePage quotaTwice) (st_requests exampleState + 2))
        \<and> fr_frameIndex f = 0 \<and> st_requests st' = st_requests exampleState + 2 + 1)
   \<and> (0::nat) < 3
   \<and> \<not> resp_success (pg_captureFrame (examplePage otherFailure) (st_requests exampleState + 0))
   \<and> \<not> rateLimited (pg_captureFrame (examplePage otherFailure) (st_requests exampleState + 0))
   \<and> (\<exists>st'. scrollCropLoop (examplePage otherFailure) exampleElement False 0 400 500 (Count 3) 0 [] exampleState
          = Some (Inl (Error (errorOr (resp_error (pg_captureFrame (examplePage otherFailure) (st_requests exampleState + 0)))
                                      ''Failed to capture frame'')), st')
        \<and> st_requests st' = st_requests exampleState + 0 + 1)
   \<and> (1::nat) < 3
   \<and> map (\<lambda>k. \<not> resp_success (pg_captureFrame (examplePage quotaThenOther) (st_requests exampleState + k)) \<and> rateLimited (pg_captureFrame (examplePage quotaThenOther) (st_requests exampleState + k))) [0] = [True]
   \<and> \<not> resp_success (pg_captureFrame (examplePage quotaThenOther) (st_requests exampleState + 1))
   \<and> \<not> rateLimited (pg_captureFrame (examplePage quotaThenOther) (st_requests exampleState + 1))
   \<and> (\<exists>st'. scrollCropLoop (examplePage quotaThenOther) exampleElement False 0 400 500 (Count 3) 0 [] exampleState
          = Some (Inl (Error (errorOr (resp_error (pg_captureFrame (examplePage quotaThenOther) (st_requests exampleState + 1)))
                                      ''Failed to capture frame'')), st')
        \<and> st_requests st' = st_requests exampleState + 1 + 1)
   \<and> captureWithScrollAndCrop (examplePage quotaAfterFirst) exampleElement exampleElement False exampleState
       = Some (Inl (Error ''This request exceeds the MAX_CAPTURE_VISIBLE_TAB_CALLS_PER_SECOND quota.''),
           \<lparr> st_scrollTop = 400, st_scrollbarsHidden = False, st_progressShown = False,
             st_requests = 4, st_progress = [] \<rparr>)
   \<and> captureWithScrollAndCrop (examplePage quotaTwice) exampleElement exampleElement False exampleState
       = Some (Inr [exampleCaptured 0 0, exampleCaptured 400 1, exampleCaptured 500 2],
           \<lparr> st_scrollTop = 120, st_scrollbarsHidden = False, st_progressShown = False,
             st_requests = 5, st_progress = [] \<rparr>)
   \<and> captureWithScrollAndCrop (examplePage otherFailure) exampleElement exampleElement False exampleState
       = Some (Inl (Error ''No active tab''),
           \<lparr> st_scrollTop = 0, st_scrollbarsHidden = False, st_progressShown = False,
             st_requests = 1, st_progress = [] \<rparr>)
   \<and> captureWithScrollAndCrop (examplePage quotaThenOther) exampleElement exampleElement False exampleState
       = Some (Inl (Error ''No active tab''),
           \<lparr> st_scrollTop = 0, st_scrollbarsHidden = False, st_progressShown = False,
             st_requests = 2, st_progress = [] \<rparr>)"
proof -
  have less: "countLess 0 (Count 3)" by simp
  have quota: "\<forall>k < 3. \<not> resp_success (pg_captureFrame (examplePage alwaysQuota) (st_requests exampleState + k)) \<and> rateLimited (pg_captureFrame (examplePage alwaysQuota) (st_requests exampleState + k))"
    by (simp add: examplePage_def alwaysQuota_def quota_replies)
  have two: "(2::nat) < 3" and zero: "(0::nat) < 3" and one: "(1::nat) < 3" by simp_all
  have twice: "\<forall>k < 2. \<not> resp_success (pg_captureFrame (examplePage quotaTwice) (st_requests exampleState + k)) \<and> rateLimited (pg_captureFrame (examplePage quotaTwice) (st_requests exampleState + k))"
    by (simp add: examplePage_def quotaTwice_def exampleState_def quota_replies)
  have third: "resp_success (pg_captureFrame (examplePage quotaTwice) (st_requests exampleState + 2))"
    by (simp add: examplePage_def quotaTwice_def exampleState_def quota_replies)
  have none: "\<forall>k < 0. \<not> resp_success (pg_captureFrame (examplePage otherFailure) (st_requests exampleState + k)) \<and> rateLimited (pg_captureFrame (examplePage otherFailure) (st_requests exampleState + k))"
    by simp
  have other: "\<not> resp_success (pg_captureFrame (examplePage otherFailure) (st_requests exampleState + 0))"
              "\<not> rateLimited (pg_captureFrame (examplePage otherFailure) (st_requests exampleState + 0))"
    by (simp_all add: examplePage_def otherFailure_def quota_replies)
  have first: "\<forall>k < 1. \<not> resp_success (pg_captureFrame (examplePage quotaThenOther) (st_requests exampleState + k)) \<and> rateLimited (pg_captureFrame (examplePage quotaThenOther) (st_requests exampleState + k))"
    by (simp add: examplePage_def quotaThenOther_def exampleState_def quota_replies)
  have second: "\<not> resp_success (pg_captureFrame (examplePage quotaThenOther) (st_requests exampleState + 1))"
               "\<not> rateLimited (pg_captureFrame (examplePage quotaThenOther) (st_requests exampleState + 1))"
    by (simp_all add: examplePage_def quotaThenOther_def exampleState_def quota_replies)
  note a = snapshot_retry_policy [OF less, where pg = "examplePage alwaysQuota" and st = exampleState
             and cropTarget = exampleElement and onProgress = False and targetOffsetTop = 0
             and effectiveHeight = 400 and scrollableForTarget = 500 and frames = "[]"]
  note b = snapshot_retry_policy [OF less, where pg = "examplePage quotaTwice" and st = exampleState
             and cropTarget = exampleElement and onProgress = False and targetOffsetTop = 0
             and effectiveHeight = 400 and scrollableForTarget = 500 and frames = "[]"]
  note c = snapshot_retry_policy [OF less, where pg = "examplePage otherFailure" and st = exampleState
             and cropTarget = exampleElement and onProgress = False and targetOffsetTop = 0
             and effectiveHeight = 400 and scrollableForTarget = 500 and frames = "[]"]
  note d = snapshot_retry_policy [OF less, where pg = "examplePage quotaThenOther" and st = exampleState
             and cropTarget = exampleElement and onProgress = False and targetOffsetTop = 0
             and effectiveHeight = 400 and scrollableForTarget = 500 and frames = "[]"]
  from a quota have A: "\<exists>m st'. scrollCropLoop (examplePage alwaysQuota) exampleElement False 0 400 500 (Count 3) 0 [] exampleState = Some (Inl (Error m), st')
        \<and> includesStr m ''quota'' \<and> st_requests st' = st_requests exampleState + 3"
    by blast
  from b two twice third have B: "\<exists>f st'. scrollCropLoop (examplePage quotaTwice) exampleElement False 0 400 500 (Count 3) 0 [] exampleState
          = scrollCropLoop (examplePage quotaTwice) exampleElement False 0 400 500 (Count 3) (0 + 1) ([] @ [f]) st'
        \<and> fr_dataUrl f = resp_dataUrl (pg_captureFrame (examplePage quotaTwice) (st_requests exampleState + 2))
        \<and> fr_frameIndex f = 0 \<and> st_requests st' = st_requests exampleState + 2 + 1"
    by blast
  from c zero none other have C: "\<exists>st'. scrollCropLoop (examplePage otherFailure) exampleElement False 0 400 500 (Count 3) 0 [] exampleState
          = Some (Inl (Error (errorOr (resp_error (pg_captureFrame (examplePage otherFailure) (st_requests exampleState + 0)))
                                      ''Failed to capture frame'')), st')
        \<and> st_requests st' = st_requests exampleState + 0 + 1"
    by blast
  from d one first second have D: "\<exists>st'. scrollCropLoop (examplePage quotaThenOther) exampleElement False 0 400 500 (Count 3) 0 [] exampleState
          = Some (Inl (Error (errorOr (resp_error (pg_captureFrame (examplePage quotaThenOther) (st_requests exampleState + 1)))
                                      ''Failed to capture frame'')), st')
        \<and> st_requests st' = st_requests exampleState + 1 + 1"
    by blast
  have quota': "map (\<lambda>k. \<not> resp_success (pg_captureFrame (examplePage alwaysQuota) (st_requests exampleState + k)) \<and> rateLimited (pg_captureFrame (examplePage alwaysQuota) (st_requests exampleState + k))) [0, 1, 2] = [True, True, True]"
    by (simp add: examplePage_def alwaysQuota_def quota_replies)
  have twice': "map (\<lambda>k. \<not> resp_success (pg_captureFrame (examplePage quotaTwice) (st_requests exampleState + k)) \<and> rateLimited (pg_captureFrame (examplePage quotaTwice) (st_requests exampleState + k))) [0, 1] = [True, True]"
    by (simp add: examplePage_def quotaTwice_def exampleState_def quota_replies)
  have first': "map (\<lambda>k. \<not> resp_success (pg_captureFrame (examplePage quotaThenOther) (st_requests exampleState + k)) \<and> rateLimited (pg_captureFrame (examplePage quotaThenOther) (st_requests exampleState + k))) [0] = [True]"
    by (simp add: examplePage_def quotaThenOther_def exampleState_def quota_replies)
  from less quota' A two twice' third B zero other C one first' second D
       example_capture_exhausted_later example_capture_retried example_capture_other
       example_capture_quota_then_other
  show ?thesis by blast
qed

text \<open>
  C2. The claim: the scroll offset recorded before the first frame is restored on every
  exit path, also when the capture aborts with an error. The source records the offset
  and restores it in the last statement of its \<^verbatim>\<open>try\<close> block; a \<^verbatim>\<open>throw\<close> leaves the
  block before that statement, and the \<^verbatim>\<open>finally\<close> block, which undoes the hidden
  scrollbars and the progress indicator, does not restore the offset. On the example
  element, scrolled to 120: a capture whose requests succeed ends at 120; when the retries
  of the first frame are exhausted the capture fails and ends at 0, when those of the
  second frame are exhausted, at 400; and \<^const>\<open>captureFrames\<close> ends at 0 on a failed
  request.
\<close>

theorem scroll_offset_after_abort:
  "st_scrollTop exampleState = 120
   \<and> captureWithScrollAndCrop (examplePage alwaysSnapshot) exampleElement exampleElement False exampleState
       = Some (Inr [exampleCaptured 0 0, exampleCaptured 400 1, exampleCaptured 500 2],
               \<lparr> st_scrollTop = 120, st_scrollbarsHidden = False, st_progressShown = False,
                 st_requests = 3, st_progress = [] \<rparr>)
   \<and> captureWithScrollAndCrop (examplePage alwaysQuota) exampleElement exampleElement False exampleState
       = Some (Inl (Error ''This request exceeds the MAX_CAPTURE_VISIBLE_TAB_CALLS_PER_SECOND quota.''),
               \<lparr> st_scrollTop = 0, st_scrollbarsHidden = False, st_progressShown = False,
                 st_requests = 3, st_progress = [] \<rparr>)
   \<and> captureWithScrollAndCrop (examplePage quotaAfterFirst) exampleElement exampleElement False exampleState
       = Some (Inl (Error ''This request exceeds the MAX_CAPTURE_VISIBLE_TAB_CALLS_PER_SECOND quota.''),
               \<lparr> st_scrollTop = 400, st_scrollbarsHidden = False, st_progressShown = False,
                 st_requests = 4, st_progress = [] \<rparr>)
   \<and> captureFrames (examplePage otherFailure) exampleElement False exampleState
       = Some (Inl (Error ''No active tab''),
               \<lparr> st_scrollTop = 0, st_scrollbarsHidden = False, st_progressShown = False,
                 st_requests = 1, st_progress = [] \<rparr>)"
  by code_simp

end
